theory Spec2Isabelle
  imports Complex_Main "HOL-Library.List_Lexorder" "HOL-Library.Char_ord"
begin

section \<open>Values of the Python program\<close>

text \<open>
  The program is \<^verbatim>\<open>convert_webp.py\<close>: a class \<^verbatim>\<open>WebPConverter\<close> with two counters,
  a size formatter, a file discoverer, the conversion pipeline and the batch loop, and
  a \<^verbatim>\<open>main\<close> that parses the command line.

  Python's \<^verbatim>\<open>int\<close> is \<^typ>\<open>int\<close>; \<^verbatim>\<open>str\<close> is \<^typ>\<open>string\<close>. A Python \<^verbatim>\<open>float\<close> is
  modelled by the real number it denotes. Exceptions derived from \<^verbatim>\<open>Exception\<close> are
  values of the type \<open>error\<close>; a fallible operation returns \<open>error + 'a\<close>.
  \<^verbatim>\<open>LibraryError msg\<close> stands for any exception raised inside Pillow or the
  operating system, with \<^verbatim>\<open>str(e) = msg\<close>. Asynchronous interrupts
  (\<^verbatim>\<open>KeyboardInterrupt\<close>) are outside the model.
\<close>

datatype error =
    OverflowError
  | ZeroDivisionError
  | FileNotFoundError string
  | LibraryError string

fun error_message :: "error \<Rightarrow> string" where
  "error_message OverflowError = ''int too large to convert to float''"
| "error_message ZeroDivisionError = ''division by zero''"
| "error_message (FileNotFoundError msg) = msg"
| "error_message (LibraryError msg) = msg"

subsection \<open>Decimal rendering\<close>

definition digit_char :: "nat \<Rightarrow> char" where
  "digit_char d = ''0123456789'' ! d"

fun str_nat :: "nat \<Rightarrow> string" where
  "str_nat n =
     (if n < 10 then [digit_char n] else str_nat (n div 10) @ [digit_char (n mod 10)])"

declare str_nat.simps [simp del]

definition str_int :: "int \<Rightarrow> string" where
  "str_int i = (if i < 0 then ''-'' @ str_nat (nat (- i)) else str_nat (nat i))"

definition str_bool :: "bool \<Rightarrow> string" where
  "str_bool b = (if b then ''True'' else ''False'')"

definition zfill :: "nat \<Rightarrow> string \<Rightarrow> string" where
  "zfill w s = replicate (w - length s) (CHR ''0'') @ s"

text \<open>
  \<^verbatim>\<open>f"{x:.pf}"\<close>: CPython prints the decimal numeral with \<open>p\<close> fractional digits that is
  nearest to the exact value of the float, a tie going to the even last digit.
\<close>

definition round_half_even :: "real \<Rightarrow> int" where
  "round_half_even x =
     (let f = \<lfloor>x\<rfloor>; d = x - of_int f
      in if d < 1 / 2 then f
         else if 1 / 2 < d then f + 1
         else if even f then f else f + 1)"

definition format_fixed :: "nat \<Rightarrow> real \<Rightarrow> string" where
  "format_fixed p x =
     (let t = nat (round_half_even (\<bar>x\<bar> * 10 ^ p))
      in (if x < 0 then ''-'' else '''')
         @ str_nat (t div 10 ^ p)
         @ (if p = 0 then '''' else ''.'' @ zfill p (str_nat (t mod 10 ^ p))))"

subsection \<open>\<^verbatim>\<open>float(size_bytes)\<close>\<close>

text \<open>
  An integer of magnitude below \<open>2^53\<close> converts exactly. A larger one is rounded to 53
  significant bits, ties to even; when the rounded value reaches \<open>2^1024\<close> CPython raises
  \<^verbatim>\<open>OverflowError\<close>.
\<close>

fun bit_length :: "nat \<Rightarrow> nat" where
  "bit_length n = (if n = 0 then 0 else Suc (bit_length (n div 2)))"

declare bit_length.simps [simp del]

definition float_of_int :: "int \<Rightarrow> error + real" where
  "float_of_int n =
     (let a = nat \<bar>n\<bar> in
      if a < 2 ^ 53 then Inr (of_int n)
      else
        let e = bit_length a - 53;
            q = a div 2 ^ e;
            r = a mod 2 ^ e;
            h = 2 ^ (e - 1);
            q' = (if h < r \<or> (r = h \<and> odd q) then q + 1 else q);
            v = q' * 2 ^ e
        in if 2 ^ 1024 \<le> v then Inl OverflowError
           else Inr (if n < 0 then - of_nat v else of_nat v))"

section \<open>\<^verbatim>\<open>WebPConverter.format_size\<close>\<close>

text \<open>
  \<^verbatim>\<open>
  units = ['B', 'KB', 'MB', 'GB', 'TB']
  size = float(size_bytes)
  unit_index = 0
  while size >= 1024.0 and unit_index < len(units) - 1:
      size /= 1024.0
      unit_index += 1
  return f"{size:.1f} {units[unit_index]}"
  \<close>
  The loop is \<open>scale\<close>. Dividing a float that is at least 1024 by 1024 only lowers its
  exponent, so the quotient is exact and the real division below is the float division.
\<close>

definition units :: "string list" where
  "units = [''B'', ''KB'', ''MB'', ''GB'', ''TB'']"

function scale :: "real \<Rightarrow> nat \<Rightarrow> real \<times> nat" where
  "scale sz unit_index =
     (if 1024 \<le> sz \<and> unit_index < length units - 1
      then scale (sz / 1024) (unit_index + 1)
      else (sz, unit_index))"
  by pat_completeness auto
termination
  by (relation "measure (\<lambda>(sz, unit_index). length units - 1 - unit_index)") auto

declare scale.simps [simp del]

definition format_size :: "int \<Rightarrow> error + string" where
  "format_size size_bytes =
     (case float_of_int size_bytes of
        Inl e \<Rightarrow> Inl e
      | Inr size0 \<Rightarrow>
          (case scale size0 0 of
             (sz, unit_index) \<Rightarrow> Inr (format_fixed 1 sz @ '' '' @ units ! unit_index)))"

section \<open>Paths and the directory tree\<close>

text \<open>
  A \<^verbatim>\<open>pathlib.Path\<close> is the list of its components. \<^verbatim>\<open>Path.name\<close> is the last
  component, \<^verbatim>\<open>Path.suffix\<close> and \<^verbatim>\<open>Path.stem\<close> cut the name at its last dot when
  that dot is neither the first nor the last character (pathlib up to Python 3.13):
  \<^verbatim>\<open>i = name.rfind('.'); if 0 < i < len(name) - 1: return name[i:]\<close>.
\<close>

type_synonym path = "string list"

fun rfind :: "char \<Rightarrow> string \<Rightarrow> int" where
  "rfind c [] = - 1"
| "rfind c (x # xs) =
     (let r = rfind c xs in if r \<noteq> - 1 then r + 1 else if x = c then 0 else - 1)"

definition path_name :: "path \<Rightarrow> string" where
  "path_name p = (if p = [] then '''' else last p)"

definition path_parent :: "path \<Rightarrow> path" where
  "path_parent p = butlast p"

definition path_suffix :: "path \<Rightarrow> string" where
  "path_suffix p =
     (let name = path_name p; i = rfind (CHR ''.'') name
      in if 0 < i \<and> i < int (length name) - 1 then drop (nat i) name else '''')"

definition path_stem :: "path \<Rightarrow> string" where
  "path_stem p =
     (let name = path_name p; i = rfind (CHR ''.'') name
      in if 0 < i \<and> i < int (length name) - 1 then take (nat i) name else name)"

fun join :: "string \<Rightarrow> string list \<Rightarrow> string" where
  "join sep [] = ''''"
| "join sep [x] = x"
| "join sep (x # y # ys) = x @ sep @ join sep (y # ys)"

definition str_path :: "path \<Rightarrow> string" where
  "str_path p = (if p = [] then ''.'' else join ''/'' p)"

text \<open>\<^verbatim>\<open>str.lower()\<close> on the ASCII letters; other characters are kept.\<close>

definition lower_char :: "char \<Rightarrow> char" where
  "lower_char c =
     (case map_of (zip ''ABCDEFGHIJKLMNOPQRSTUVWXYZ'' ''abcdefghijklmnopqrstuvwxyz'') c of
        None \<Rightarrow> c
      | Some l \<Rightarrow> l)"

definition lower :: "string \<Rightarrow> string" where
  "lower s = map lower_char s"

text \<open>
  What the file system holds below its root: regular files, directories with their
  entries in the order the operating system lists them, and anything else (sockets,
  devices, dangling links). Every node carries its name.
\<close>

datatype fsnode =
    RegularFile string
  | Special string
  | Directory string "fsnode list"

fun node_name :: "fsnode \<Rightarrow> string" where
  "node_name (RegularFile nm) = nm"
| "node_name (Special nm) = nm"
| "node_name (Directory nm es) = nm"

fun lookup :: "fsnode \<Rightarrow> path \<Rightarrow> fsnode option" where
  "lookup n [] = Some n"
| "lookup (Directory nm es) (c # cs) =
     (case find (\<lambda>e. node_name e = c) es of
        None \<Rightarrow> None
      | Some e \<Rightarrow> lookup e cs)"
| "lookup (RegularFile nm) (c # cs) = None"
| "lookup (Special nm) (c # cs) = None"

fun subtree :: "path \<Rightarrow> fsnode \<Rightarrow> path list" where
  "subtree p (Directory nm es) =
     concat (map (\<lambda>e. (p @ [node_name e]) # subtree (p @ [node_name e]) e) es)"
| "subtree p (RegularFile nm) = []"
| "subtree p (Special nm) = []"

section \<open>The world outside the converter\<close>

text \<open>
  A decoded image is its mode, its size and a description of where its pixels come
  from; the pixel operations themselves are Pillow's.
\<close>

datatype pixels =
    Decoded path
  | White
  | Pasted pixels pixels
  | Converted string pixels

record image =
  mode :: string
  img_size :: "nat \<times> nat"
  pixels :: pixels

text \<open>The keyword arguments of \<^verbatim>\<open>img.save\<close>; \<open>kw_lossless\<close> is \<open>None\<close> when the key is absent.\<close>

record save_kwargs =
  kw_format :: string
  kw_quality :: int
  kw_method :: int
  kw_optimize :: bool
  kw_lossless :: "bool option"

text \<open>
  The environment answers every call the program makes to Pillow, to the file system and
  to the clock. \<open>clock n\<close> is the value of the \<open>n\<close>-th call of \<^verbatim>\<open>time.time()\<close>.
\<close>

record env =
  fs :: fsnode
  clock :: "nat \<Rightarrow> real"
  mkdir :: "path \<Rightarrow> error option"
  image_open :: "path \<Rightarrow> error + image"
  verify :: "image \<Rightarrow> error option"
  paste :: "image \<Rightarrow> image \<Rightarrow> error option"
  convert :: "image \<Rightarrow> string \<Rightarrow> error option"
  save :: "image \<Rightarrow> path \<Rightarrow> save_kwargs \<Rightarrow> error option"
  stat_size :: "path \<Rightarrow> error + int"

text \<open>
  What the program changes outside the converter object: the lines printed, the number of
  clock readings made, and the calls of \<^verbatim>\<open>img.save\<close> in order.
\<close>

record world =
  stdout :: "string list"
  clock_reads :: nat
  encode_calls :: "(image \<times> path \<times> save_kwargs) list"

definition print :: "string \<Rightarrow> world \<Rightarrow> world" where
  "print s w = w\<lparr>stdout := stdout w @ [s]\<rparr>"

definition time_now :: "env \<Rightarrow> world \<Rightarrow> real \<times> world" where
  "time_now env w = (clock env (clock_reads w), w\<lparr>clock_reads := Suc (clock_reads w)\<rparr>)"

definition path_exists :: "env \<Rightarrow> path \<Rightarrow> bool" where
  "path_exists env p = (lookup (fs env) p \<noteq> None)"

definition is_file :: "env \<Rightarrow> path \<Rightarrow> bool" where
  "is_file env p = (case lookup (fs env) p of Some (RegularFile nm) \<Rightarrow> True | _ \<Rightarrow> False)"

definition is_dir :: "env \<Rightarrow> path \<Rightarrow> bool" where
  "is_dir env p = (case lookup (fs env) p of Some (Directory nm es) \<Rightarrow> True | _ \<Rightarrow> False)"

text \<open>
  \<^verbatim>\<open>directory.glob("*")\<close> yields the entries of the directory, \<^verbatim>\<open>directory.glob("**/*")\<close>
  everything below it; on something that is not a directory both yield nothing.
\<close>

definition glob :: "env \<Rightarrow> path \<Rightarrow> string \<Rightarrow> path list" where
  "glob env directory pattern =
     (case lookup (fs env) directory of
        Some (Directory nm es) \<Rightarrow>
          if pattern = ''**/*'' then subtree directory (Directory nm es)
          else if pattern = ''*'' then map (\<lambda>e. directory @ [node_name e]) es
          else []
      | _ \<Rightarrow> [])"

section \<open>\<^verbatim>\<open>WebPConverter\<close>\<close>

record converter =
  converted_count :: int
  failed_count :: int

definition SUPPORTED_EXTENSIONS :: "string set" where
  "SUPPORTED_EXTENSIONS =
     {''.jpg'', ''.jpeg'', ''.png'', ''.bmp'', ''.tiff'', ''.tif'', ''.gif''}"

text \<open>\<^verbatim>\<open>__init__\<close>\<close>

definition init :: converter where
  "init = \<lparr>converted_count = 0, failed_count = 0\<rparr>"

text \<open>\<^verbatim>\<open>is_valid_image\<close>: open and verify; any exception gives \<^verbatim>\<open>False\<close>.\<close>

definition is_valid_image :: "env \<Rightarrow> path \<Rightarrow> bool" where
  "is_valid_image env file_path =
     (case image_open env file_path of
        Inl e \<Rightarrow> False
      | Inr img \<Rightarrow> (case verify env img of Some e \<Rightarrow> False | None \<Rightarrow> True))"

text \<open>\<^verbatim>\<open>_find_image_files\<close>\<close>

definition find_image_files :: "env \<Rightarrow> path \<Rightarrow> bool \<Rightarrow> path list" where
  "find_image_files env directory recursive =
     (let pattern = (if recursive then ''**/*'' else ''*'')
      in sort (filter (\<lambda>file_path. is_file env file_path
                         \<and> lower (path_suffix file_path) \<in> SUPPORTED_EXTENSIONS)
                (glob env directory pattern)))"

subsection \<open>\<^verbatim>\<open>convert_to_webp\<close>\<close>

text \<open>
  Lines 79 to 85, the output path: the explicit one, else \<^verbatim>\<open><output_folder>/<stem>.webp\<close>
  after \<^verbatim>\<open>mkdir(parents=True, exist_ok=True)\<close>, else \<^verbatim>\<open><parent>/<stem>.webp\<close>.
\<close>

definition resolve_output :: "env \<Rightarrow> path \<Rightarrow> path option \<Rightarrow> path option \<Rightarrow> error + path" where
  "resolve_output env input_path output_path output_folder =
     (case output_path of
        Some p \<Rightarrow> Inr p
      | None \<Rightarrow>
          (case output_folder of
             Some folder \<Rightarrow>
               (case mkdir env folder of
                  Some e \<Rightarrow> Inl e
                | None \<Rightarrow> Inr (folder @ [path_stem input_path @ ''.webp'']))
           | None \<Rightarrow> Inr (path_parent input_path @ [path_stem input_path @ ''.webp''])))"

text \<open>
  Lines 90 to 99, the colour mode:
  \<^verbatim>\<open>
  if img.mode in ('RGBA', 'LA'):
      background = Image.new('RGB', img.size, (255, 255, 255))
      background.paste(img, mask=img.split()[-1])
      img = background
  elif img.mode not in ('RGB', 'L'):
      img = img.convert('RGB')
  \<close>
\<close>

definition normalize_color :: "env \<Rightarrow> image \<Rightarrow> error + image" where
  "normalize_color env img =
     (if mode img \<in> {''RGBA'', ''LA''} then
        (let background = \<lparr>mode = ''RGB'', img_size = img_size img, pixels = White\<rparr>
         in case paste env background img of
              Some e \<Rightarrow> Inl e
            | None \<Rightarrow> Inr (background\<lparr>pixels := Pasted (pixels background) (pixels img)\<rparr>))
      else if mode img \<notin> {''RGB'', ''L''} then
        (case convert env img ''RGB'' of
           Some e \<Rightarrow> Inl e
         | None \<Rightarrow> Inr \<lparr>mode = ''RGB'', img_size = img_size img,
                         pixels = Converted ''RGB'' (pixels img)\<rparr>)
      else Inr img)"

text \<open>
  Lines 102 to 110, the options of the encoder:
  \<^verbatim>\<open>
  save_kwargs = {'format': 'WEBP', 'quality': quality, 'method': method, 'optimize': True}
  if lossless:
      save_kwargs['lossless'] = True
  \<close>
\<close>

definition make_save_kwargs :: "int \<Rightarrow> bool \<Rightarrow> int \<Rightarrow> save_kwargs" where
  "make_save_kwargs quality lossless method =
     \<lparr>kw_format = ''WEBP'', kw_quality = quality, kw_method = method, kw_optimize = True,
      kw_lossless = (if lossless then Some True else None)\<rparr>"

text \<open>Line 133, the message of the handler: \<^verbatim>\<open>f"Error converting {input_path}: {str(e)}"\<close>.\<close>

definition error_line :: "path \<Rightarrow> error \<Rightarrow> string" where
  "error_line input_path e =
     ''Error converting '' @ str_path input_path @ '': '' @ error_message e"

text \<open>
  \<^verbatim>\<open>_print_conversion_result\<close>: seven calls of \<^verbatim>\<open>print\<close>; \<^verbatim>\<open>format_size\<close> may raise after
  the first two.
\<close>

definition print_conversion_result ::
  "path \<Rightarrow> path \<Rightarrow> int \<Rightarrow> int \<Rightarrow> real \<Rightarrow> real \<Rightarrow> world \<Rightarrow> error option \<times> world" where
  "print_conversion_result input_path output_path original_size compressed_size
       compression_ratio time_taken w =
     (let w1 = print (''Converted: '' @ path_name input_path) w;
          w2 = print (''  Output: '' @ path_name output_path) w1
      in case format_size original_size of
           Inl e \<Rightarrow> (Some e, w2)
         | Inr original \<Rightarrow>
             (let w3 = print (''  Original: '' @ original) w2
              in case format_size compressed_size of
                   Inl e \<Rightarrow> (Some e, w3)
                 | Inr compressed \<Rightarrow>
                     (let w4 = print (''  Compressed: '' @ compressed) w3;
                          w5 = print (''  Compression: '' @ format_fixed 1 compression_ratio
                                        @ ''%'') w4;
                          w6 = print (''  Time taken: '' @ format_fixed 2 time_taken @ ''s'') w5
                      in (None, print '''' w6))))"

text \<open>
  The body of the \<^verbatim>\<open>try\<close> block, lines 78 to 130, up to the increment of the counter.
  It returns the exception that leaves the block, or the output path and the time taken,
  together with the effects made up to that point. The compression ratio is computed on
  the reals.
\<close>

definition convert_body ::
  "env \<Rightarrow> path \<Rightarrow> path option \<Rightarrow> int \<Rightarrow> bool \<Rightarrow> int \<Rightarrow> path option \<Rightarrow> real \<Rightarrow> world
     \<Rightarrow> (error + path \<times> real) \<times> world" where
  "convert_body env input_path output_path quality lossless method output_folder start_time w =
     (case resolve_output env input_path output_path output_folder of
        Inl e \<Rightarrow> (Inl e, w)
      | Inr out \<Rightarrow>
     (case image_open env input_path of
        Inl e \<Rightarrow> (Inl e, w)
      | Inr img0 \<Rightarrow>
     (case normalize_color env img0 of
        Inl e \<Rightarrow> (Inl e, w)
      | Inr img \<Rightarrow>
     (let save_kwargs = make_save_kwargs quality lossless method;
          w1 = w\<lparr>encode_calls := encode_calls w @ [(img, out, save_kwargs)]\<rparr>
      in case save env img out save_kwargs of
           Some e \<Rightarrow> (Inl e, w1)
         | None \<Rightarrow>
     (case time_now env w1 of (end_time, w2) \<Rightarrow>
     (let time_taken = end_time - start_time
      in case stat_size env input_path of
           Inl e \<Rightarrow> (Inl e, w2)
         | Inr original_size \<Rightarrow>
     (case stat_size env out of
        Inl e \<Rightarrow> (Inl e, w2)
      | Inr compressed_size \<Rightarrow>
          if original_size = 0 then (Inl ZeroDivisionError, w2)
          else
            (let compression_ratio =
                   (1 - real_of_int compressed_size / real_of_int original_size) * 100
             in case print_conversion_result input_path out original_size compressed_size
                       compression_ratio time_taken w2 of
                  (Some e, w3) \<Rightarrow> (Inl e, w3)
                | (None, w3) \<Rightarrow> (Inr (out, time_taken), w3)))))))))"

definition convert_to_webp ::
  "env \<Rightarrow> path \<Rightarrow> path option \<Rightarrow> int \<Rightarrow> bool \<Rightarrow> int \<Rightarrow> path option \<Rightarrow> converter \<Rightarrow> world
     \<Rightarrow> (string option \<times> real) \<times> converter \<times> world" where
  "convert_to_webp env input_path output_path quality lossless method output_folder self w =
     (case time_now env w of (start_time, w0) \<Rightarrow>
        (case convert_body env input_path output_path quality lossless method output_folder
                start_time w0 of
           (Inr (out, time_taken), w1) \<Rightarrow>
             ((Some (str_path out), time_taken),
              self\<lparr>converted_count := converted_count self + 1\<rparr>, w1)
         | (Inl e, w1) \<Rightarrow>
             ((None, 0),
              self\<lparr>failed_count := failed_count self + 1\<rparr>,
              print (error_line input_path e) w1)))"

subsection \<open>\<^verbatim>\<open>batch_convert\<close>\<close>

text \<open>Line 196, the notice: \<^verbatim>\<open>f"Skipping {img_file.name} (already WebP)"\<close>.\<close>

definition skip_line :: "string \<Rightarrow> string" where
  "skip_line name = ''Skipping '' @ name @ '' (already WebP)''"

text \<open>The \<^verbatim>\<open>for img_file in image_files\<close> loop, lines 193 to 200.\<close>

fun batch_loop ::
  "env \<Rightarrow> int \<Rightarrow> bool \<Rightarrow> int \<Rightarrow> path option \<Rightarrow> path list \<Rightarrow> real \<Rightarrow> converter \<Rightarrow> world
     \<Rightarrow> real \<times> converter \<times> world" where
  "batch_loop env quality lossless method output_folder [] total_time self w =
     (total_time, self, w)"
| "batch_loop env quality lossless method output_folder (img_file # rest) total_time self w =
     (if lower (path_suffix img_file) = ''.webp''
      then batch_loop env quality lossless method output_folder rest total_time self
             (print (skip_line (path_name img_file)) w)
      else
        (case convert_to_webp env img_file None quality lossless method output_folder self w of
           ((_, time_taken), self', w') \<Rightarrow>
             batch_loop env quality lossless method output_folder rest
               (total_time + time_taken) self' w'))"

definition batch_convert ::
  "env \<Rightarrow> path \<Rightarrow> int \<Rightarrow> bool \<Rightarrow> int \<Rightarrow> bool \<Rightarrow> path option \<Rightarrow> converter \<Rightarrow> world
     \<Rightarrow> (error + int \<times> real) \<times> converter \<times> world" where
  "batch_convert env directory quality lossless method recursive output_folder self w =
     (if \<not> path_exists env directory
      then (Inl (FileNotFoundError (''Directory does not exist: '' @ str_path directory)),
            self, w)
      else
        (let image_files = find_image_files env directory recursive
         in if image_files = []
            then (Inr (0, 0), self, print ''No supported image files found.'' w)
            else
              (let w1 = print (''Found '' @ str_nat (length image_files)
                                 @ '' image(s) to convert...'') w;
                   w2 = print (replicate 60 (CHR ''='')) w1
               in case batch_loop env quality lossless method output_folder image_files 0
                         self w2 of
                    (total_time, self', w') \<Rightarrow>
                      (Inr (converted_count self', total_time), self', w'))))"

section \<open>The command line\<close>

text \<open>
  The options as \<^verbatim>\<open>argparse\<close> holds them once \<^verbatim>\<open>type=int\<close> has been applied and before
  \<^verbatim>\<open>choices\<close> is checked; an option that was not given is \<open>None\<close>.
\<close>

record cmdline =
  cl_input :: path
  cl_output :: "path option"
  cl_quality :: "int option"
  cl_lossless :: bool
  cl_method :: "int option"
  cl_recursive :: bool
  cl_verbose :: bool
  cl_output_folder :: "path option"

record args =
  arg_input :: path
  arg_output :: "path option"
  arg_quality :: int
  arg_lossless :: bool
  arg_method :: int
  arg_recursive :: bool
  arg_verbose :: bool
  arg_output_folder :: "path option"

text \<open>
  \<^verbatim>\<open>parser.parse_args()\<close> with \<^verbatim>\<open>choices=range(1, 101)\<close> for the quality and
  \<^verbatim>\<open>choices=range(7)\<close> for the method; a value outside the choices ends the process with
  status 2.
\<close>

definition parse_args :: "cmdline \<Rightarrow> int + args" where
  "parse_args cl =
     (case (case cl_quality cl of
              None \<Rightarrow> Inr 80
            | Some q \<Rightarrow> if 1 \<le> q \<and> q < 101 then Inr q else Inl 2) of
        Inl status \<Rightarrow> Inl status
      | Inr quality \<Rightarrow>
          (case (case cl_method cl of
                   None \<Rightarrow> Inr 4
                 | Some m \<Rightarrow> if 0 \<le> m \<and> m < 7 then Inr m else Inl 2) of
             Inl status \<Rightarrow> Inl status
           | Inr method \<Rightarrow>
               Inr \<lparr>arg_input = cl_input cl, arg_output = cl_output cl,
                     arg_quality = quality, arg_lossless = cl_lossless cl,
                     arg_method = method, arg_recursive = cl_recursive cl,
                     arg_verbose = cl_verbose cl,
                     arg_output_folder = cl_output_folder cl\<rparr>))"

text \<open>Lines 313 to 321.\<close>

definition print_verbose :: "args \<Rightarrow> world \<Rightarrow> world" where
  "print_verbose a w =
     (let w1 = print (''Input: '' @ str_path (arg_input a)) w;
          w2 = print (''Quality: '' @ str_int (arg_quality a) @ ''%'') w1;
          w3 = print (''Lossless: '' @ str_bool (arg_lossless a)) w2;
          w4 = print (''Method: '' @ str_int (arg_method a)) w3;
          w5 = print (''Recursive: '' @ str_bool (arg_recursive a)) w4;
          w6 = (case arg_output_folder a of
                  Some folder \<Rightarrow> print (''Output folder: '' @ str_path folder) w5
                | None \<Rightarrow> w5)
      in print (replicate 50 (CHR ''='')) w6)"

text \<open>Lines 349 to 361: the batch branch of \<^verbatim>\<open>main\<close> after \<^verbatim>\<open>batch_convert\<close> returned.\<close>

definition print_summary :: "int \<Rightarrow> real \<Rightarrow> converter \<Rightarrow> world \<Rightarrow> world" where
  "print_summary success_count total_time self w =
     (let w1 = print (replicate 60 (CHR ''='')) w;
          w2 = print (''Summary: '' @ str_int success_count
                        @ '' images converted successfully'') w1;
          w3 = print (''Total time: '' @ format_fixed 2 total_time @ ''s'') w2;
          w4 = (if 0 < success_count
                then print (''Average time per image: ''
                              @ format_fixed 2 (total_time / real_of_int success_count)
                              @ ''s'') w3
                else w3)
      in if 0 < failed_count self
         then print (''Failed conversions: '' @ str_int (failed_count self)) w4
         else w4)"

text \<open>
  \<^verbatim>\<open>main\<close> returns the exit status of the process (0 when \<^verbatim>\<open>main\<close> returns, the argument of
  \<^verbatim>\<open>sys.exit\<close> otherwise), the converter when one was constructed, and the world.
\<close>

definition main :: "env \<Rightarrow> cmdline \<Rightarrow> world \<Rightarrow> int \<times> converter option \<times> world" where
  "main env cl w =
     (let w1 = print ''WebP Image Converter - Python Version'' w;
          w2 = print (replicate 50 (CHR ''='')) w1
      in case parse_args cl of
           Inl status \<Rightarrow> (status, None, w2)
         | Inr a \<Rightarrow>
     (let input_path = arg_input a
      in if \<not> path_exists env input_path
         then (1, None,
               print (''Error: Input path does not exist: '' @ str_path input_path) w2)
         else
     (let w3 = (if arg_verbose a then print_verbose a w2 else w2);
          converter = init
      in if is_file env input_path then
           (if \<not> is_valid_image env input_path
            then (1, Some converter,
                  print (''Error: Invalid or unsupported image file: ''
                           @ str_path input_path) w3)
            else
              (case convert_to_webp env input_path (arg_output a) (arg_quality a)
                      (arg_lossless a) (arg_method a) (arg_output_folder a) converter w3 of
                 ((result, time_taken), converter', w4) \<Rightarrow>
                   if result \<noteq> None \<and> result \<noteq> Some ''''
                   then (0, Some converter',
                         print (''Conversion completed successfully in ''
                                  @ format_fixed 2 time_taken @ ''s!'') w4)
                   else (1, Some converter', print ''Conversion failed!'' w4)))
         else if is_dir env input_path then
           (let w4 = (if arg_output a \<noteq> None
                      then print '''' (print
                             ''Warning: Output path is ignored when processing directories''
                             w3)
                      else w3)
            in case batch_convert env input_path (arg_quality a) (arg_lossless a)
                      (arg_method a) (arg_recursive a) (arg_output_folder a) converter w4 of
                 (Inl e, converter', w5) \<Rightarrow>
                   (1, Some converter',
                    print (''Unexpected error: '' @ error_message e) w5)
               | (Inr (success_count, total_time), converter', w5) \<Rightarrow>
                   (0, Some converter',
                    print_summary success_count total_time converter' w5))
         else (1, Some converter,
               print (''Error: Input is neither a file nor directory: ''
                        @ str_path input_path) w3))))"

section \<open>Notions the properties are stated with\<close>

text \<open>
  Pillow's modes that carry an alpha band: \<^verbatim>\<open>RGBA\<close>, \<^verbatim>\<open>LA\<close>, \<^verbatim>\<open>PA\<close> (palette with
  alpha, as read from a TIFF) and the premultiplied \<^verbatim>\<open>RGBa\<close> and \<^verbatim>\<open>La\<close>.
\<close>

definition has_alpha_channel :: "string \<Rightarrow> bool" where
  "has_alpha_channel m = (m \<in> {''RGBA'', ''LA'', ''PA'', ''RGBa'', ''La''})"

definition empty_world :: world where
  "empty_world = \<lparr>stdout = [], clock_reads = 0, encode_calls = []\<rparr>"

text \<open>
  The conversion of a file succeeds when \<^verbatim>\<open>convert_to_webp\<close> returns an output path. The
  definition runs it on a fresh converter; the outcome is the same on every other.
\<close>

definition succeeds ::
  "env \<Rightarrow> path \<Rightarrow> path option \<Rightarrow> int \<Rightarrow> bool \<Rightarrow> int \<Rightarrow> path option \<Rightarrow> bool" where
  "succeeds env input_path output_path quality lossless method output_folder =
     (fst (fst (convert_to_webp env input_path output_path quality lossless method
                  output_folder init empty_world)) \<noteq> None)"

text \<open>
  The pairs returned by the calls of \<^verbatim>\<open>convert_to_webp\<close> that the loop of
  \<^verbatim>\<open>batch_convert\<close> makes, in order.
\<close>

fun batch_trace ::
  "env \<Rightarrow> int \<Rightarrow> bool \<Rightarrow> int \<Rightarrow> path option \<Rightarrow> path list \<Rightarrow> converter \<Rightarrow> world
     \<Rightarrow> (string option \<times> real) list" where
  "batch_trace env quality lossless method output_folder [] self w = []"
| "batch_trace env quality lossless method output_folder (img_file # rest) self w =
     (if lower (path_suffix img_file) = ''.webp''
      then batch_trace env quality lossless method output_folder rest self
             (print (skip_line (path_name img_file)) w)
      else
        (case convert_to_webp env img_file None quality lossless method output_folder self w of
           (r, self', w') \<Rightarrow>
             r # batch_trace env quality lossless method output_folder rest self' w'))"

text \<open>The loop without its test for \<^verbatim>\<open>.webp\<close>: every file goes to the pipeline.\<close>

fun convert_all ::
  "env \<Rightarrow> int \<Rightarrow> bool \<Rightarrow> int \<Rightarrow> path option \<Rightarrow> path list \<Rightarrow> real \<Rightarrow> converter \<Rightarrow> world
     \<Rightarrow> real \<times> converter \<times> world" where
  "convert_all env quality lossless method output_folder [] total_time self w =
     (total_time, self, w)"
| "convert_all env quality lossless method output_folder (img_file # rest) total_time self w =
     (case convert_to_webp env img_file None quality lossless method output_folder self w of
        ((_, time_taken), self', w') \<Rightarrow>
          convert_all env quality lossless method output_folder rest
            (total_time + time_taken) self' w')"

text \<open>A printed line that is empty or does not begin with the letter S.\<close>

definition no_S :: "string \<Rightarrow> bool" where
  "no_S s = (case s of [] \<Rightarrow> True | x # xs \<Rightarrow> x \<noteq> CHR ''S'')"

text \<open>
  An example: a directory \<^verbatim>\<open>photos\<close> with three images that decode, one file that does
  not, a \<^verbatim>\<open>.webp\<close> file, a text file and a subdirectory, and an empty directory.
\<close>

definition example_fs :: fsnode where
  "example_fs =
     Directory ''''
       [Directory ''photos''
          [RegularFile ''c.gif'', RegularFile ''old.webp'', RegularFile ''b.JPG'',
           Directory ''sub'' [RegularFile ''d.tif'', Special ''pipe.png''],
           RegularFile ''corrupt.jpeg'', RegularFile ''notes.txt'', RegularFile ''a.png'',
           Directory ''dir.png'' []],
        Directory ''empty'' []]"

definition example_env :: env where
  "example_env =
     \<lparr>fs = example_fs,
      clock = (\<lambda>n. real n / 4),
      mkdir = (\<lambda>p. None),
      image_open =
        (\<lambda>p. if path_name p = ''corrupt.jpeg''
             then Inl (LibraryError ''cannot identify image file'')
             else Inr \<lparr>mode = (if path_name p = ''a.png'' then ''RGBA'' else ''RGB''),
                       img_size = (4, 3), pixels = Decoded p\<rparr>),
      verify = (\<lambda>img. None),
      paste = (\<lambda>background img. None),
      convert = (\<lambda>img m. None),
      save = (\<lambda>img p kw. None),
      stat_size = (\<lambda>p. Inr (if path_suffix p = ''.webp'' then 512 else 2048))\<rparr>"

definition example_cmdline :: cmdline where
  "example_cmdline =
     \<lparr>cl_input = [''photos''], cl_output = None, cl_quality = None, cl_lossless = False,
      cl_method = None, cl_recursive = False, cl_verbose = False, cl_output_folder = None\<rparr>"

section \<open>Properties of \<^verbatim>\<open>format_size\<close>\<close>

lemma bit_length_pow2: "bit_length (2 ^ k) = Suc k"
proof (induction k)
  case 0
  show ?case by (simp add: bit_length.simps)
next
  case (Suc k)
  have "bit_length (2 ^ Suc k) = Suc (bit_length (2 ^ Suc k div 2))"
    by (subst bit_length.simps) simp
  with Suc show ?case by simp
qed

lemma scale_char:
  "\<exists>k. scale x u = (x / 1024 ^ k, u + k)
     \<and> (\<forall>j<k. 1024 \<le> x / 1024 ^ j)
     \<and> (k = 0 \<or> u + k \<le> 4)
     \<and> (u + k < 4 \<longrightarrow> x / 1024 ^ k < 1024)"
proof (induction x u rule: scale.induct)
  case (1 sz unit_index)
  show ?case
  proof (cases "1024 \<le> sz \<and> unit_index < length units - 1")
    case True
    from 1 [OF True] obtain k where k:
      "scale (sz / 1024) (unit_index + 1) = (sz / 1024 / 1024 ^ k, unit_index + 1 + k)"
      "\<forall>j<k. 1024 \<le> sz / 1024 / 1024 ^ j"
      "k = 0 \<or> unit_index + 1 + k \<le> 4"
      "unit_index + 1 + k < 4 \<longrightarrow> sz / 1024 / 1024 ^ k < 1024"
      by blast
    have lo: "\<forall>j<Suc k. 1024 \<le> sz / 1024 ^ j"
    proof (intro allI impI)
      fix j assume "j < Suc k"
      show "1024 \<le> sz / 1024 ^ j"
      proof (cases j)
        case 0
        with True show ?thesis by simp
      next
        case (Suc i)
        with \<open>j < Suc k\<close> k(2) have "1024 \<le> sz / 1024 / 1024 ^ i" by simp
        with Suc show ?thesis by simp
      qed
    qed
    have up: "unit_index + Suc k \<le> 4"
      using True k(3) by (auto simp: units_def)
    have "scale sz unit_index = (sz / 1024 ^ Suc k, unit_index + Suc k)"
      using True k(1) by (subst scale.simps) simp
    moreover have "unit_index + Suc k < 4 \<longrightarrow> sz / 1024 ^ Suc k < 1024"
      using k(4) by simp
    ultimately show ?thesis using lo up by blast
  next
    case False
    then have "scale sz unit_index = (sz / 1024 ^ 0, unit_index + 0)"
      by (subst scale.simps) auto
    moreover have "unit_index + 0 < 4 \<longrightarrow> sz / 1024 ^ 0 < 1024"
      using False by (auto simp: units_def)
    ultimately show ?thesis by blast
  qed
qed

lemma digit_char_in: "d < 10 \<Longrightarrow> digit_char d \<in> set ''0123456789''"
  unfolding digit_char_def by (rule nth_mem) simp

lemma str_nat_digits: "str_nat n \<noteq> [] \<and> set (str_nat n) \<subseteq> set ''0123456789''"
proof (induction n rule: str_nat.induct)
  case (1 n)
  show ?case
  proof (cases "n < 10")
    case True
    then have "str_nat n = [digit_char n]" by (subst str_nat.simps) simp
    with digit_char_in [OF True] show ?thesis by simp
  next
    case False
    then have eq: "str_nat n = str_nat (n div 10) @ [digit_char (n mod 10)]"
      by (subst str_nat.simps) simp
    have "digit_char (n mod 10) \<in> set ''0123456789''"
      by (rule digit_char_in) simp
    with 1 [OF False] eq show ?thesis by simp
  qed
qed

lemma format_fixed_1_shape:
  assumes "0 \<le> x"
  shows "\<exists>ds d. format_fixed 1 x = ds @ ''.'' @ [d] \<and> ds \<noteq> []
           \<and> set ds \<subseteq> set ''0123456789'' \<and> d \<in> set ''0123456789''"
proof -
  define t where "t = nat (round_half_even (\<bar>x\<bar> * 10 ^ 1))"
  have small: "str_nat (t mod 10) = [digit_char (t mod 10)]"
    by (subst str_nat.simps) simp
  have "format_fixed 1 x = str_nat (t div 10) @ ''.'' @ [digit_char (t mod 10)]"
    using assms small by (simp add: format_fixed_def t_def Let_def zfill_def)
  moreover have "digit_char (t mod 10) \<in> set ''0123456789''"
    by (rule digit_char_in) simp
  ultimately show ?thesis using str_nat_digits [of "t div 10"] by blast
qed

lemma float_of_int_exact: "\<bar>n\<bar> < 2 ^ 53 \<Longrightarrow> float_of_int n = Inr (of_int n)"
  by (simp add: float_of_int_def Let_def nat_less_iff)

lemma float_of_int_nonneg: "0 \<le> n \<Longrightarrow> float_of_int n = Inr x \<Longrightarrow> 0 \<le> x"
  by (auto simp: float_of_int_def Let_def split: if_splits)

lemmas format_size_eval =
  format_size_def float_of_int_def scale.simps units_def format_fixed_def
  round_half_even_def str_nat.simps digit_char_def zfill_def Let_def

text \<open>
  Claim C5, as amended. For every non-negative byte count \<open>n\<close> that \<^verbatim>\<open>float\<close> converts,
  to the value \<open>x\<close>, \<^verbatim>\<open>format_size\<close> returns digits, a dot, exactly one digit, a space
  and the unit \<open>units ! k\<close>, where \<open>k\<close> is the number of divisions by 1024: every value
  before the \<open>k\<close>-th division was at least 1024, and the loop stopped because the value
  fell below 1024 or \<open>k\<close> is the index of the last unit. The number printed is
  \<open>x / 1024 ^ k\<close> rounded to one fractional digit. Every count below \<open>2^53\<close> converts,
  exactly. In particular 0 gives \<^verbatim>\<open>0.0 B\<close>, 1536 gives \<^verbatim>\<open>1.5 KB\<close> and 1048576 gives
  \<^verbatim>\<open>1.0 MB\<close>.
\<close>

theorem format_size_renders:
  "(0 \<le> n \<and> float_of_int n = Inr x \<longrightarrow>
      (\<exists>k ds d. format_size n = Inr (ds @ ''.'' @ [d] @ '' '' @ units ! k)
         \<and> k < length units
         \<and> ds @ ''.'' @ [d] = format_fixed 1 (x / 1024 ^ k)
         \<and> ds \<noteq> [] \<and> set ds \<subseteq> set ''0123456789'' \<and> d \<in> set ''0123456789''
         \<and> (\<forall>j<k. 1024 \<le> x / 1024 ^ j)
         \<and> (k < length units - 1 \<longrightarrow> x / 1024 ^ k < 1024)))
   \<and> (\<bar>n\<bar> < 2 ^ 53 \<longrightarrow> float_of_int n = Inr (of_int n))
   \<and> format_size 0 = Inr ''0.0 B''
   \<and> format_size 1536 = Inr ''1.5 KB''
   \<and> format_size 1048576 = Inr ''1.0 MB''"
proof (intro conjI impI)
  assume a: "0 \<le> n \<and> float_of_int n = Inr x"
  then have x0: "0 \<le> x" using float_of_int_nonneg by blast
  from scale_char [of x 0] obtain k where k:
    "scale x 0 = (x / 1024 ^ k, k)" "\<forall>j<k. 1024 \<le> x / 1024 ^ j"
    "k = 0 \<or> k \<le> 4" "k < 4 \<longrightarrow> x / 1024 ^ k < 1024"
    by auto
  have "0 \<le> x / 1024 ^ k" using x0 by simp
  from format_fixed_1_shape [OF this] obtain ds d where sh:
    "format_fixed 1 (x / 1024 ^ k) = ds @ ''.'' @ [d]" "ds \<noteq> []"
    "set ds \<subseteq> set ''0123456789''" "d \<in> set ''0123456789''"
    by blast
  have "format_size n = Inr (ds @ ''.'' @ [d] @ '' '' @ units ! k)"
    using a k(1) sh(1) by (simp add: format_size_def)
  moreover have "k < length units" using k(3) by (auto simp: units_def)
  moreover have "k < length units - 1 \<longrightarrow> x / 1024 ^ k < 1024"
    using k(4) by (simp add: units_def)
  ultimately show "\<exists>k ds d. format_size n = Inr (ds @ ''.'' @ [d] @ '' '' @ units ! k)
         \<and> k < length units
         \<and> ds @ ''.'' @ [d] = format_fixed 1 (x / 1024 ^ k)
         \<and> ds \<noteq> [] \<and> set ds \<subseteq> set ''0123456789'' \<and> d \<in> set ''0123456789''
         \<and> (\<forall>j<k. 1024 \<le> x / 1024 ^ j)
         \<and> (k < length units - 1 \<longrightarrow> x / 1024 ^ k < 1024)"
    using sh k(2) by metis
next
  assume "\<bar>n\<bar> < 2 ^ 53"
  then show "float_of_int n = Inr (of_int n)" by (rule float_of_int_exact)
next
  show "format_size 0 = Inr ''0.0 B''" by (simp add: format_size_eval)
next
  show "format_size 1536 = Inr ''1.5 KB''" by (simp add: format_size_eval)
next
  show "format_size 1048576 = Inr ''1.0 MB''" by (simp add: format_size_eval)
qed

theorem format_size_renders_witness:
  "(0::int) \<le> 1280 \<and> float_of_int 1280 = Inr 1280
   \<and> (\<exists>k ds d. format_size 1280 = Inr (ds @ ''.'' @ [d] @ '' '' @ units ! k)
         \<and> k < length units
         \<and> ds @ ''.'' @ [d] = format_fixed 1 (1280 / 1024 ^ k)
         \<and> ds \<noteq> [] \<and> set ds \<subseteq> set ''0123456789'' \<and> d \<in> set ''0123456789''
         \<and> (\<forall>j<k. 1024 \<le> (1280::real) / 1024 ^ j)
         \<and> (k < length units - 1 \<longrightarrow> (1280::real) / 1024 ^ k < 1024))
   \<and> format_size 1280 = Inr ''1.2 KB''"
proof -
  have f: "float_of_int 1280 = Inr 1280" by (simp add: float_of_int_def)
  have "format_size 1280 = Inr ''1.2 KB''" by (simp add: format_size_eval)
  with f format_size_renders [of 1280 1280] show ?thesis by simp
qed

text \<open>
  Claim C5 as stated, for every non-negative integer, fails: \<^verbatim>\<open>float(2 ** 1024)\<close> raises
  \<^verbatim>\<open>OverflowError\<close>, so \<^verbatim>\<open>format_size\<close> renders nothing there.
\<close>

theorem format_size_overflow: "format_size (2 ^ 1024) = Inl OverflowError"
proof -
  have a: "nat \<bar>2 ^ 1024 :: int\<bar> = 2 ^ 1024" by (simp add: nat_power_eq)
  have b: "bit_length (2 ^ 1024) - 53 = 972" unfolding bit_length_pow2 by simp
  have c: "(2::nat) ^ 1024 div 2 ^ 972 = 2 ^ 52" by (simp add: power_diff [symmetric])
  have d: "(2::nat) ^ 1024 mod 2 ^ 972 = 0" by (simp add: le_imp_power_dvd)
  have e: "(2::nat) ^ 52 * 2 ^ 972 = 2 ^ 1024" by (simp add: power_add [symmetric])
  have f: "\<not> (2::nat) ^ 1024 < 2 ^ 53" by simp
  have "float_of_int (2 ^ 1024) = Inl OverflowError"
    unfolding float_of_int_def Let_def a b c d e using f by simp
  then show ?thesis by (simp add: format_size_def)
qed

section \<open>Properties of \<^verbatim>\<open>convert_to_webp\<close>\<close>

lemma convert_to_webp_unfold:
  "convert_to_webp env ip op q l m fo c w =
     (case convert_body env ip op q l m fo (clock env (clock_reads w))
             (w\<lparr>clock_reads := Suc (clock_reads w)\<rparr>) of
        (Inr (out, t), w1) \<Rightarrow>
          ((Some (str_path out), t), c\<lparr>converted_count := converted_count c + 1\<rparr>, w1)
      | (Inl e, w1) \<Rightarrow>
          ((None, 0), c\<lparr>failed_count := failed_count c + 1\<rparr>,
           w1\<lparr>stdout := stdout w1 @ [error_line ip e]\<rparr>))"
  by (simp add: convert_to_webp_def time_now_def print_def error_line_def
      split: prod.splits sum.splits)





lemma convert_body_success:
  "convert_body env ip op q l m fo st w = (Inr (out, t), w1) \<Longrightarrow>
     resolve_output env ip op fo = Inr out \<and> t = clock env (clock_reads w) - st
     \<and> (\<exists>img0 img. image_open env ip = Inr img0 \<and> normalize_color env img0 = Inr img
          \<and> save env img out (make_save_kwargs q l m) = None)"
  by (auto simp: convert_body_def make_save_kwargs_def Let_def time_now_def
      split: sum.splits option.splits prod.splits if_splits)


lemma print_conversion_result_world:
  "print_conversion_result ip out osz csz ratio t w = (r, w') \<Longrightarrow>
     (\<exists>pre. stdout w' = stdout w @ pre) \<and> clock_reads w' = clock_reads w
     \<and> encode_calls w' = encode_calls w"
  by (auto simp: print_conversion_result_def print_def Let_def split: sum.splits)


lemma print_conversion_result_isl:
  "fst (print_conversion_result ip out osz csz ratio t w) = None
     \<longleftrightarrow> (\<exists>a b. format_size osz = Inr a \<and> format_size csz = Inr b)"
  by (auto simp: print_conversion_result_def Let_def split: sum.splits)

lemma convert_body_isr_iff:
  "(\<exists>p w1. convert_body env ip op q l m fo st w = (Inr p, w1)) \<longleftrightarrow>
     (\<exists>out img0 img osz csz a b.
        resolve_output env ip op fo = Inr out \<and> image_open env ip = Inr img0
        \<and> normalize_color env img0 = Inr img
        \<and> save env img out (make_save_kwargs q l m) = None
        \<and> stat_size env ip = Inr osz \<and> stat_size env out = Inr csz \<and> osz \<noteq> 0
        \<and> format_size osz = Inr a \<and> format_size csz = Inr b)"
  by (auto simp: convert_body_def Let_def time_now_def print_conversion_result_def
      split: sum.splits option.splits prod.splits if_splits)

lemma convert_to_webp_Some_iff:
  "fst (fst (convert_to_webp env ip op q l m fo c w)) \<noteq> None \<longleftrightarrow>
     (\<exists>p w1. convert_body env ip op q l m fo (clock env (clock_reads w))
                (w\<lparr>clock_reads := Suc (clock_reads w)\<rparr>) = (Inr p, w1))"
  by (auto simp: convert_to_webp_unfold split: prod.splits sum.splits)

lemma succeeds_indep:
  "fst (fst (convert_to_webp env ip op q l m fo c w)) \<noteq> None \<longleftrightarrow> succeeds env ip op q l m fo"
  unfolding succeeds_def convert_to_webp_Some_iff convert_body_isr_iff ..

lemma succeeds_iff:
  "succeeds env ip op q l m fo \<longleftrightarrow>
     (\<exists>out img0 img osz csz a b.
        resolve_output env ip op fo = Inr out \<and> image_open env ip = Inr img0
        \<and> normalize_color env img0 = Inr img
        \<and> save env img out (make_save_kwargs q l m) = None
        \<and> stat_size env ip = Inr osz \<and> stat_size env out = Inr csz \<and> osz \<noteq> 0
        \<and> format_size osz = Inr a \<and> format_size csz = Inr b)"
  unfolding succeeds_def convert_to_webp_Some_iff convert_body_isr_iff ..

lemma format_size_ok: "\<bar>n\<bar> < 2 ^ 53 \<Longrightarrow> \<exists>a. format_size n = Inr a"
  by (simp add: format_size_def float_of_int_exact split: prod.splits)

lemma convert_to_webp_succeeds:
  assumes "succeeds env ip op q l m fo"
  shows "\<exists>out w'. convert_to_webp env ip op q l m fo c w
           = ((Some (str_path out), clock env (Suc (clock_reads w)) - clock env (clock_reads w)),
              c\<lparr>converted_count := converted_count c + 1\<rparr>, w')"
proof -
  from assms have "fst (fst (convert_to_webp env ip op q l m fo c w)) \<noteq> None"
    using succeeds_indep [of env ip op q l m fo c w] by blast
  then obtain p w1 where body:
    "convert_body env ip op q l m fo (clock env (clock_reads w))
       (w\<lparr>clock_reads := Suc (clock_reads w)\<rparr>) = (Inr p, w1)"
    unfolding convert_to_webp_Some_iff by blast
  obtain out t where p: "p = (out, t)" by (cases p)
  from convert_body_success [OF body [unfolded p]]
  have "t = clock env (Suc (clock_reads w)) - clock env (clock_reads w)" by simp
  with body p show ?thesis by (auto simp: convert_to_webp_unfold)
qed

lemma convert_to_webp_fails:
  assumes "\<not> succeeds env ip op q l m fo"
  shows "\<exists>w'. convert_to_webp env ip op q l m fo c w
           = ((None, 0), c\<lparr>failed_count := failed_count c + 1\<rparr>, w')"
proof -
  from assms have "fst (fst (convert_to_webp env ip op q l m fo c w)) = None"
    using succeeds_indep [of env ip op q l m fo c w] by blast
  then show ?thesis
    by (auto simp: convert_to_webp_unfold split: prod.splits sum.splits)
qed

lemma discovered_supported:
  "f \<in> set (find_image_files env d r) \<Longrightarrow> lower (path_suffix f) \<in> SUPPORTED_EXTENSIONS"
  by (auto simp: find_image_files_def Let_def)

lemma discovered_not_webp:
  "f \<in> set (find_image_files env d r) \<Longrightarrow> lower (path_suffix f) \<noteq> ''.webp''"
  by (drule discovered_supported) (auto simp: SUPPORTED_EXTENSIONS_def)

lemma batch_loop_convert_all:
  "\<forall>f\<in>set files. lower (path_suffix f) \<noteq> ''.webp'' \<Longrightarrow>
     batch_loop env q l m fo files t c w = convert_all env q l m fo files t c w"
  by (induction files arbitrary: t c w) (auto split: prod.splits)

lemma convert_all_counts:
  "convert_all env q l m fo files t c w = (t', c', w') \<Longrightarrow>
     converted_count c' = converted_count c
        + int (length (filter (\<lambda>f. succeeds env f None q l m fo) files))
     \<and> failed_count c' = failed_count c
        + int (length (filter (\<lambda>f. \<not> succeeds env f None q l m fo) files))"
proof (induction files arbitrary: t c w)
  case Nil
  then show ?case by simp
next
  case (Cons f files)
  show ?case
  proof (cases "succeeds env f None q l m fo")
    case True
    from convert_to_webp_succeeds [OF True, of c w] obtain out w1 where
      "convert_to_webp env f None q l m fo c w
         = ((Some (str_path out), clock env (Suc (clock_reads w)) - clock env (clock_reads w)),
            c\<lparr>converted_count := converted_count c + 1\<rparr>, w1)"
      by blast
    with Cons.prems have "convert_all env q l m fo files
        (t + (clock env (Suc (clock_reads w)) - clock env (clock_reads w)))
        (c\<lparr>converted_count := converted_count c + 1\<rparr>) w1 = (t', c', w')"
      by simp
    from Cons.IH [OF this] True show ?thesis by simp
  next
    case False
    from convert_to_webp_fails [OF False, of c w] obtain w1 where
      "convert_to_webp env f None q l m fo c w
         = ((None, 0), c\<lparr>failed_count := failed_count c + 1\<rparr>, w1)"
      by blast
    with Cons.prems have "convert_all env q l m fo files (t + 0)
        (c\<lparr>failed_count := failed_count c + 1\<rparr>) w1 = (t', c', w')"
      by simp
    from Cons.IH [OF this] False show ?thesis by simp
  qed
qed

subsection \<open>The example\<close>

lemma example_corrupt_open:
  "image_open example_env [''photos'', ''corrupt.jpeg'']
     = Inl (LibraryError ''cannot identify image file'')"
  by code_simp

lemma example_succeeds:
  assumes "path_name p \<noteq> ''corrupt.jpeg''"
  shows "succeeds example_env p None q l m None"
proof -
  obtain a where a: "format_size 2048 = Inr a" using format_size_ok [of 2048] by auto
  obtain b where b: "format_size 512 = Inr b" using format_size_ok [of 512] by auto
  show ?thesis
    unfolding succeeds_iff
    using assms a b
    by (auto simp: example_env_def resolve_output_def normalize_color_def)
qed

lemma example_a_name: "path_name [''photos'', ''a.png''] \<noteq> ''corrupt.jpeg''"
  by code_simp

lemma example_a_output:
  "resolve_output example_env [''photos'', ''a.png''] None None = Inr [''photos'', ''a.webp'']"
  by code_simp


subsection \<open>Errors stay inside the pipeline\<close>



section \<open>Properties of \<^verbatim>\<open>batch_convert\<close>\<close>

lemma find_image_files_missing:
  "\<not> path_exists env d \<Longrightarrow> find_image_files env d r = []"
  by (simp add: path_exists_def find_image_files_def glob_def)

lemma batch_convert_missing:
  "\<not> path_exists env d \<Longrightarrow>
     batch_convert env d q l m r fo c w
       = (Inl (FileNotFoundError (''Directory does not exist: '' @ str_path d)), c, w)"
  by (simp add: batch_convert_def)

lemma batch_convert_empty:
  "path_exists env d \<Longrightarrow> find_image_files env d r = [] \<Longrightarrow>
     batch_convert env d q l m r fo c w
       = (Inr (0, 0), c, print ''No supported image files found.'' w)"
  by (simp add: batch_convert_def)

lemma batch_convert_nonempty:
  assumes "path_exists env d" "find_image_files env d r \<noteq> []"
  shows "batch_convert env d q l m r fo c w
       = (case convert_all env q l m fo (find_image_files env d r) 0 c
                 (print (replicate 60 (CHR ''=''))
                    (print (''Found '' @ str_nat (length (find_image_files env d r))
                              @ '' image(s) to convert...'') w)) of
            (t, c', w') \<Rightarrow> (Inr (converted_count c', t), c', w'))"
proof -
  have "\<forall>f\<in>set (find_image_files env d r). lower (path_suffix f) \<noteq> ''.webp''"
    using discovered_not_webp by blast
  from batch_loop_convert_all [OF this] assms show ?thesis
    by (simp add: batch_convert_def Let_def)
qed

lemma batch_convert_counts:
  assumes "batch_convert env d q l m r fo c w = (res, c', w')"
  shows "converted_count c' = converted_count c
           + int (length (filter (\<lambda>f. succeeds env f None q l m fo) (find_image_files env d r)))
       \<and> failed_count c' = failed_count c
           + int (length (filter (\<lambda>f. \<not> succeeds env f None q l m fo)
                            (find_image_files env d r)))"
proof (cases "path_exists env d")
  case False
  with assms show ?thesis
    by (simp add: batch_convert_missing find_image_files_missing)
next
  case True
  show ?thesis
  proof (cases "find_image_files env d r = []")
    case e: True
    with assms True show ?thesis by (simp add: batch_convert_empty)
  next
    case ne: False
    let ?w2 = "print (replicate 60 (CHR ''=''))
                    (print (''Found '' @ str_nat (length (find_image_files env d r))
                              @ '' image(s) to convert...'') w)"
    obtain t c2 w3 where ca:
      "convert_all env q l m fo (find_image_files env d r) 0 c ?w2 = (t, c2, w3)"
      by (cases "convert_all env q l m fo (find_image_files env d r) 0 c ?w2") blast
    with assms batch_convert_nonempty [OF True ne, of q l m fo c w] have "c' = c2" by simp
    with convert_all_counts [OF ca] show ?thesis by simp
  qed
qed

subsection \<open>The counters\<close>


subsection \<open>The example directory\<close>

lemma open_fails_not_succeeds:
  "image_open env ip = Inl e \<Longrightarrow> \<not> succeeds env ip op q l m fo"
  by (simp add: succeeds_iff)

lemma example_photos_exists: "path_exists example_env [''photos'']"
  by code_simp


lemma example_photos_not_file: "\<not> is_file example_env [''photos'']"
  by code_simp

lemma example_empty_exists: "path_exists example_env [''empty'']"
  by code_simp

lemma example_empty_files: "find_image_files example_env [''empty''] False = []"
  by code_simp

lemma example_photos_files:
  "find_image_files example_env [''photos''] False
     = [[''photos'', ''a.png''], [''photos'', ''b.JPG''], [''photos'', ''c.gif''],
        [''photos'', ''corrupt.jpeg'']]"
  by code_simp

lemma example_b_name: "path_name [''photos'', ''b.JPG''] \<noteq> ''corrupt.jpeg''"
  by code_simp

lemma example_c_name: "path_name [''photos'', ''c.gif''] \<noteq> ''corrupt.jpeg''"
  by code_simp

lemma example_photos_outcomes:
  "succeeds example_env [''photos'', ''a.png''] None q l m None"
  "succeeds example_env [''photos'', ''b.JPG''] None q l m None"
  "succeeds example_env [''photos'', ''c.gif''] None q l m None"
  "\<not> succeeds example_env [''photos'', ''corrupt.jpeg''] None q l m None"
  using example_succeeds [OF example_a_name] example_succeeds [OF example_b_name]
    example_succeeds [OF example_c_name] open_fails_not_succeeds [OF example_corrupt_open]
  by blast+

lemma example_photos_counts:
  "length (filter (\<lambda>f. succeeds example_env f None q l m None)
             (find_image_files example_env [''photos''] False)) = 3"
  "length (filter (\<lambda>f. \<not> succeeds example_env f None q l m None)
             (find_image_files example_env [''photos''] False)) = 1"
  by (simp_all add: example_photos_files example_photos_outcomes)

subsection \<open>The count that \<^verbatim>\<open>batch_convert\<close> returns\<close>

text \<open>
  Claim C9, as amended. When the directory exists and at least one file is discovered,
  the first component of the pair returned by \<^verbatim>\<open>batch_convert\<close> is the converter's
  \<open>converted_count\<close> after the call, that is the count before the call plus the number
  of files this call converted; on a second call it includes the successes of the first.
  When nothing is discovered the pair is \<open>(0, 0.0)\<close> and the converter is unchanged,
  whatever its counters hold.
\<close>

theorem batch_convert_returns_cumulative_count:
  "(path_exists env d \<and> find_image_files env d r \<noteq> [] \<longrightarrow>
      (\<exists>t c' w'. batch_convert env d q l m r fo c w = (Inr (converted_count c', t), c', w')
         \<and> converted_count c' = converted_count c
              + int (length (filter (\<lambda>f. succeeds env f None q l m fo)
                               (find_image_files env d r)))))
   \<and> (path_exists env d \<and> find_image_files env d r = [] \<longrightarrow>
      (\<exists>w'. batch_convert env d q l m r fo c w = (Inr (0, 0), c, w')))"
proof (intro conjI impI)
  assume a: "path_exists env d \<and> find_image_files env d r \<noteq> []"
  obtain res c' w' where b: "batch_convert env d q l m r fo c w = (res, c', w')"
    by (cases "batch_convert env d q l m r fo c w") blast
  from a batch_convert_nonempty [of env d r q l m fo c w] b
  obtain t where "res = Inr (converted_count c', t)"
    by (auto split: prod.splits)
  with b batch_convert_counts [OF b]
  show "\<exists>t c' w'. batch_convert env d q l m r fo c w = (Inr (converted_count c', t), c', w')
         \<and> converted_count c' = converted_count c
              + int (length (filter (\<lambda>f. succeeds env f None q l m fo)
                               (find_image_files env d r)))"
    by blast
next
  assume "path_exists env d \<and> find_image_files env d r = []"
  then show "\<exists>w'. batch_convert env d q l m r fo c w = (Inr (0, 0), c, w')"
    by (simp add: batch_convert_empty)
qed

theorem batch_convert_returns_cumulative_count_witness:
  "(\<exists>t c' w'.
      batch_convert example_env [''photos''] 80 False 4 False None
        \<lparr>converted_count = 2, failed_count = 0\<rparr> empty_world = (Inr (5, t), c', w')
      \<and> converted_count c' = 5)
   \<and> (\<exists>w'. batch_convert example_env [''empty''] 80 False 4 False None
        \<lparr>converted_count = 2, failed_count = 0\<rparr> empty_world
          = (Inr (0, 0), \<lparr>converted_count = 2, failed_count = 0\<rparr>, w'))"
proof
  have ne: "find_image_files example_env [''photos''] False \<noteq> []"
    by (simp add: example_photos_files)
  from batch_convert_returns_cumulative_count
         [of example_env "[''photos'']" False 80 False 4 None
             "\<lparr>converted_count = 2, failed_count = 0\<rparr>" empty_world]
       example_photos_exists ne example_photos_counts(1) [of 80 False 4]
  show "\<exists>t c' w'.
      batch_convert example_env [''photos''] 80 False 4 False None
        \<lparr>converted_count = 2, failed_count = 0\<rparr> empty_world = (Inr (5, t), c', w')
      \<and> converted_count c' = 5"
    by auto
next
  from batch_convert_returns_cumulative_count
         [of example_env "[''empty'']" False 80 False 4 None
             "\<lparr>converted_count = 2, failed_count = 0\<rparr>" empty_world]
       example_empty_exists example_empty_files
  show "\<exists>w'. batch_convert example_env [''empty''] 80 False 4 False None
        \<lparr>converted_count = 2, failed_count = 0\<rparr> empty_world
          = (Inr (0, 0), \<lparr>converted_count = 2, failed_count = 0\<rparr>, w')"
    by auto
qed

text \<open>
  Claim C9 as stated fails on the early return of line 186: on a converter that has
  already converted two files, a batch over a directory without images returns 0, not
  the cumulative count 2.
\<close>

theorem batch_convert_empty_returns_zero:
  "fst (batch_convert example_env [''empty''] 80 False 4 False None
          \<lparr>converted_count = 2, failed_count = 0\<rparr> empty_world) = Inr (0, 0)
   \<and> converted_count (fst (snd (batch_convert example_env [''empty''] 80 False 4 False None
          \<lparr>converted_count = 2, failed_count = 0\<rparr> empty_world))) = 2"
  by (simp add: batch_convert_empty [OF example_empty_exists example_empty_files])

subsection \<open>The time that \<^verbatim>\<open>batch_convert\<close> adds up\<close>

lemma convert_to_webp_None_zero:
  "fst (fst (convert_to_webp env ip op q l m fo c w)) = None
     \<Longrightarrow> snd (fst (convert_to_webp env ip op q l m fo c w)) = 0"
  by (auto simp: convert_to_webp_unfold split: prod.splits sum.splits)

lemma batch_trace_None_zero:
  "r \<in> set (batch_trace env q l m fo files c w) \<Longrightarrow> fst r = None \<Longrightarrow> snd r = 0"
proof (induction files arbitrary: c w)
  case Nil
  then show ?case by simp
next
  case (Cons f files)
  show ?case
  proof (cases "lower (path_suffix f) = ''.webp''")
    case True
    with Cons show ?thesis by simp
  next
    case False
    obtain r1 c1 w1 where s: "convert_to_webp env f None q l m fo c w = (r1, c1, w1)"
      by (cases "convert_to_webp env f None q l m fo c w") blast
    with Cons.prems(1) False
    have "r = r1 \<or> r \<in> set (batch_trace env q l m fo files c1 w1)" by simp
    then show ?thesis
    proof
      assume "r = r1"
      with s Cons.prems(2) convert_to_webp_None_zero [of env f None q l m fo c w]
      show ?thesis by simp
    next
      assume "r \<in> set (batch_trace env q l m fo files c1 w1)"
      from Cons.IH [OF this Cons.prems(2)] show ?thesis .
    qed
  qed
qed

lemma batch_loop_total:
  "fst (batch_loop env q l m fo files t c w)
     = foldl (+) t (map snd (filter (\<lambda>r. fst r \<noteq> None) (batch_trace env q l m fo files c w)))"
proof (induction files arbitrary: t c w)
  case Nil
  show ?case by simp
next
  case (Cons f files)
  show ?case
  proof (cases "lower (path_suffix f) = ''.webp''")
    case True
    with Cons show ?thesis by simp
  next
    case False
    obtain res tt c1 w1 where s: "convert_to_webp env f None q l m fo c w = ((res, tt), c1, w1)"
      by (cases "convert_to_webp env f None q l m fo c w") auto
    show ?thesis
    proof (cases "res = None")
      case True
      with s convert_to_webp_None_zero [of env f None q l m fo c w] have "tt = 0" by simp
      with s True False Cons.IH [of t c1 w1] show ?thesis by simp
    next
      case ok: False
      with s False Cons.IH [of "t + tt" c1 w1] show ?thesis by simp
    qed
  qed
qed

lemma batch_convert_total:
  assumes "batch_convert env d q l m r fo c w = (Inr (n, total_time), c', w')"
  shows "total_time = foldl (+) 0 (map snd (filter (\<lambda>r. fst r \<noteq> None)
            (batch_trace env q l m fo (find_image_files env d r) c
               (print (replicate 60 (CHR ''=''))
                  (print (''Found '' @ str_nat (length (find_image_files env d r))
                            @ '' image(s) to convert...'') w)))))"
proof (cases "find_image_files env d r = []")
  case True
  with assms show ?thesis
    by (auto simp: batch_convert_def split: if_splits)
next
  case False
  let ?w2 = "print (replicate 60 (CHR ''=''))
                  (print (''Found '' @ str_nat (length (find_image_files env d r))
                            @ '' image(s) to convert...'') w)"
  from assms False
  have "total_time = fst (batch_loop env q l m fo (find_image_files env d r) 0 c ?w2)"
    by (auto simp: batch_convert_def Let_def split: if_splits prod.splits)
  then show ?thesis by (simp only: batch_loop_total)
qed

lemma example_clock_step: "clock example_env (Suc k) - clock example_env k = 1 / 4"
  by (simp add: example_env_def field_simps)

lemma example_photos_trace_full:
  "\<exists>o1 o2 o3. batch_trace example_env q l m None
        (find_image_files example_env [''photos''] False) c w
     = [(Some o1, 1 / 4), (Some o2, 1 / 4), (Some o3, 1 / 4), (None, 0)]"
proof -
  have nw: "lower (path_suffix [''photos'', ''a.png'']) \<noteq> ''.webp''"
    "lower (path_suffix [''photos'', ''b.JPG'']) \<noteq> ''.webp''"
    "lower (path_suffix [''photos'', ''c.gif'']) \<noteq> ''.webp''"
    "lower (path_suffix [''photos'', ''corrupt.jpeg'']) \<noteq> ''.webp''"
    using discovered_not_webp [of _ example_env "[''photos'']" False]
    by (simp_all add: example_photos_files)
  from convert_to_webp_succeeds [OF example_photos_outcomes(1), of q l m c w]
  obtain o1 w1 where s1:
    "convert_to_webp example_env [''photos'', ''a.png''] None q l m None c w
       = ((Some (str_path o1), 1 / 4), c\<lparr>converted_count := converted_count c + 1\<rparr>, w1)"
    by (auto simp: example_clock_step)
  let ?c1 = "c\<lparr>converted_count := converted_count c + 1\<rparr>"
  from convert_to_webp_succeeds [OF example_photos_outcomes(2), of q l m ?c1 w1]
  obtain o2 w2 where s2:
    "convert_to_webp example_env [''photos'', ''b.JPG''] None q l m None ?c1 w1
       = ((Some (str_path o2), 1 / 4), ?c1\<lparr>converted_count := converted_count ?c1 + 1\<rparr>, w2)"
    by (auto simp: example_clock_step)
  let ?c2 = "?c1\<lparr>converted_count := converted_count ?c1 + 1\<rparr>"
  from convert_to_webp_succeeds [OF example_photos_outcomes(3), of q l m ?c2 w2]
  obtain o3 w3 where s3:
    "convert_to_webp example_env [''photos'', ''c.gif''] None q l m None ?c2 w2
       = ((Some (str_path o3), 1 / 4), ?c2\<lparr>converted_count := converted_count ?c2 + 1\<rparr>, w3)"
    by (auto simp: example_clock_step)
  let ?c3 = "?c2\<lparr>converted_count := converted_count ?c2 + 1\<rparr>"
  from convert_to_webp_fails [OF example_photos_outcomes(4), of q l m ?c3 w3]
  obtain w4 where s4:
    "convert_to_webp example_env [''photos'', ''corrupt.jpeg''] None q l m None ?c3 w3
       = ((None, 0), ?c3\<lparr>failed_count := failed_count ?c3 + 1\<rparr>, w4)"
    by auto
  show ?thesis
    unfolding example_photos_files
    using nw s1 s2 s3 s4 by simp
qed

lemma example_photos_trace:
  "map snd (filter (\<lambda>x. fst x \<noteq> None)
     (batch_trace example_env q l m None
        (find_image_files example_env [''photos''] False) c w)) = [1 / 4, 1 / 4, 1 / 4]"
  using example_photos_trace_full [of q l m c w] by auto

text \<open>
  Claim C10. When \<^verbatim>\<open>convert_to_webp\<close> returns no output path, the time it returns is 0,
  whatever the clock says. The loop of \<^verbatim>\<open>batch_convert\<close> adds the returned times in order;
  every pair without an output path carries the time 0, so the total is the sum, in order,
  of the times of the successful conversions only, and this is the total that
  \<^verbatim>\<open>batch_convert\<close> returns.
\<close>

theorem failed_conversion_takes_no_time:
  "(fst (fst (convert_to_webp env ip op q l m fo c w)) = None
      \<longrightarrow> snd (fst (convert_to_webp env ip op q l m fo c w)) = 0)
   \<and> (\<forall>x\<in>set (batch_trace env q l m fo files c w). fst x = None \<longrightarrow> snd x = 0)
   \<and> fst (batch_loop env q l m fo files t c w)
       = foldl (+) t (map snd (filter (\<lambda>x. fst x \<noteq> None)
                                  (batch_trace env q l m fo files c w)))
   \<and> (batch_convert env d q l m r fo c w = (Inr (n, total_time), c', w') \<longrightarrow>
        total_time = foldl (+) 0 (map snd (filter (\<lambda>x. fst x \<noteq> None)
            (batch_trace env q l m fo (find_image_files env d r) c
               (print (replicate 60 (CHR ''=''))
                  (print (''Found '' @ str_nat (length (find_image_files env d r))
                            @ '' image(s) to convert...'') w))))))"
proof (intro conjI impI ballI)
  assume "fst (fst (convert_to_webp env ip op q l m fo c w)) = None"
  then show "snd (fst (convert_to_webp env ip op q l m fo c w)) = 0"
    by (rule convert_to_webp_None_zero)
next
  fix x
  assume "x \<in> set (batch_trace env q l m fo files c w)" "fst x = None"
  then show "snd x = 0" by (rule batch_trace_None_zero)
next
  show "fst (batch_loop env q l m fo files t c w)
       = foldl (+) t (map snd (filter (\<lambda>x. fst x \<noteq> None)
                                  (batch_trace env q l m fo files c w)))"
    by (rule batch_loop_total)
next
  assume "batch_convert env d q l m r fo c w = (Inr (n, total_time), c', w')"
  then show "total_time = foldl (+) 0 (map snd (filter (\<lambda>x. fst x \<noteq> None)
            (batch_trace env q l m fo (find_image_files env d r) c
               (print (replicate 60 (CHR ''=''))
                  (print (''Found '' @ str_nat (length (find_image_files env d r))
                            @ '' image(s) to convert...'') w)))))"
    by (rule batch_convert_total)
qed

theorem failed_conversion_takes_no_time_witness:
  "fst (fst (convert_to_webp example_env [''photos'', ''corrupt.jpeg''] None 80 False 4 None
               init empty_world)) = None
   \<and> snd (fst (convert_to_webp example_env [''photos'', ''corrupt.jpeg''] None 80 False 4 None
               init empty_world)) = 0
   \<and> (\<exists>x\<in>set (batch_trace example_env 80 False 4 None
                   (find_image_files example_env [''photos''] False) init empty_world).
         fst x = None \<and> snd x = 0)
   \<and> fst (batch_loop example_env 80 False 4 None
             (find_image_files example_env [''photos''] False) 0 init empty_world) = 3 / 4
   \<and> (\<exists>n c' w'. batch_convert example_env [''photos''] 80 False 4 False None init empty_world
                    = (Inr (n, 3 / 4), c', w'))"
proof -
  have none: "fst (fst (convert_to_webp example_env [''photos'', ''corrupt.jpeg''] None 80 False
                          4 None init empty_world)) = None"
    using succeeds_indep example_photos_outcomes(4) by blast
  have ne: "find_image_files example_env [''photos''] False \<noteq> []"
    by (simp add: example_photos_files)
  obtain n total_time c' w' where b:
    "batch_convert example_env [''photos''] 80 False 4 False None init empty_world
       = (Inr (n, total_time), c', w')"
    using batch_convert_nonempty [OF example_photos_exists ne, of 80 False 4 None init empty_world]
    by (auto split: prod.splits)
  from example_photos_trace_full [of 80 False 4 init empty_world]
  obtain x where x: "x \<in> set (batch_trace example_env 80 False 4 None
                   (find_image_files example_env [''photos''] False) init empty_world)"
    "fst x = None"
    by auto
  note th = failed_conversion_takes_no_time
         [of example_env "[''photos'', ''corrupt.jpeg'']" None 80 False 4 None init empty_world
             "find_image_files example_env [''photos''] False" 0 "[''photos'']" False
             n total_time c' w']
  from th none
  have z: "snd (fst (convert_to_webp example_env [''photos'', ''corrupt.jpeg''] None 80 False 4
               None init empty_world)) = 0"
    by blast
  from th x have xz: "snd x = 0" by blast
  from th
  have "fst (batch_loop example_env 80 False 4 None
             (find_image_files example_env [''photos''] False) 0 init empty_world)
        = foldl (+) 0 (map snd (filter (\<lambda>x. fst x \<noteq> None)
            (batch_trace example_env 80 False 4 None
               (find_image_files example_env [''photos''] False) init empty_world)))"
    by blast
  also have "\<dots> = foldl (+) 0 [1 / 4, 1 / 4, 1 / 4]"
    by (simp only: example_photos_trace)
  also have "\<dots> = 3 / 4" by simp
  finally have lp: "fst (batch_loop example_env 80 False 4 None
             (find_image_files example_env [''photos''] False) 0 init empty_world) = 3 / 4" .
  from th b
  have "total_time = foldl (+) 0 (map snd (filter (\<lambda>x. fst x \<noteq> None)
            (batch_trace example_env 80 False 4 None
               (find_image_files example_env [''photos''] False) init
               (print (replicate 60 (CHR ''=''))
                  (print (''Found ''
                            @ str_nat (length (find_image_files example_env [''photos''] False))
                            @ '' image(s) to convert...'') empty_world)))))"
    by blast
  also have "\<dots> = foldl (+) 0 [1 / 4, 1 / 4, 1 / 4]"
    by (simp only: example_photos_trace)
  also have "\<dots> = 3 / 4" by simp
  finally have "total_time = 3 / 4" .
  with none z b x xz lp show ?thesis by blast
qed

subsection \<open>Files that are already WebP\<close>

lemma skip_line_S: "\<not> no_S (skip_line name)"
  by (simp add: no_S_def skip_line_def)

lemma print_conversion_result_lines:
  "print_conversion_result ip out osz csz ratio t w = (r, w') \<Longrightarrow>
     \<exists>new. stdout w' = stdout w @ new \<and> (\<forall>s\<in>set new. no_S s)"
  by (auto simp: print_conversion_result_def print_def Let_def no_S_def split: sum.splits)

lemma convert_body_lines:
  assumes "convert_body env ip op q l m fo st w = (r, w1)"
  shows "\<exists>new. stdout w1 = stdout w @ new \<and> (\<forall>s\<in>set new. no_S s)"
proof -
  have triv: "\<exists>new. stdout w = stdout w @ new \<and> (\<forall>s\<in>set new. no_S s)" by simp
  show ?thesis
    using assms triv
    by (auto simp: convert_body_def Let_def time_now_def
        split: sum.splits option.splits prod.splits if_splits
        dest!: print_conversion_result_lines)
qed

lemma convert_to_webp_lines:
  assumes "convert_to_webp env ip op q l m fo c w = (r, c', w')"
  shows "\<exists>new. stdout w' = stdout w @ new \<and> (\<forall>s\<in>set new. no_S s)"
proof -
  let ?w0 = "w\<lparr>clock_reads := Suc (clock_reads w)\<rparr>"
  obtain b w1 where body:
    "convert_body env ip op q l m fo (clock env (clock_reads w)) ?w0 = (b, w1)"
    by (cases "convert_body env ip op q l m fo (clock env (clock_reads w)) ?w0") blast
  from convert_body_lines [OF body] obtain new where
    new: "stdout w1 = stdout w @ new" "\<forall>s\<in>set new. no_S s"
    by auto
  have e: "no_S (error_line ip e)" for e
    by (simp add: no_S_def error_line_def)
  show ?thesis
  proof (cases b)
    case (Inl err)
    with assms body have "stdout w' = stdout w @ (new @ [error_line ip err])"
      using new(1) by (auto simp: convert_to_webp_unfold)
    moreover have "\<forall>s\<in>set (new @ [error_line ip err]). no_S s" using new(2) e by simp
    ultimately show ?thesis by blast
  next
    case (Inr p)
    with assms body have "w' = w1"
      by (auto simp: convert_to_webp_unfold split: prod.splits)
    with new show ?thesis by blast
  qed
qed

lemma convert_all_lines:
  "convert_all env q l m fo files t c w = (t', c', w') \<Longrightarrow>
     \<exists>new. stdout w' = stdout w @ new \<and> (\<forall>s\<in>set new. no_S s)"
proof (induction files arbitrary: t c w)
  case Nil
  then show ?case by simp
next
  case (Cons f files)
  obtain res tt c1 w1 where s: "convert_to_webp env f None q l m fo c w = ((res, tt), c1, w1)"
    by (cases "convert_to_webp env f None q l m fo c w") auto
  from convert_to_webp_lines [OF s] obtain n1 where
    n1: "stdout w1 = stdout w @ n1" "\<forall>s\<in>set n1. no_S s" by auto
  from Cons.prems s have "convert_all env q l m fo files (t + tt) c1 w1 = (t', c', w')"
    by simp
  from Cons.IH [OF this] obtain n2 where
    n2: "stdout w' = stdout w1 @ n2" "\<forall>s\<in>set n2. no_S s" by auto
  from n1 n2 have "stdout w' = stdout w @ (n1 @ n2)" "\<forall>s\<in>set (n1 @ n2). no_S s"
    by auto
  then show ?case by blast
qed

lemma batch_convert_lines:
  assumes "batch_convert env d q l m r fo c w = (res, c', w')"
  shows "\<exists>new. stdout w' = stdout w @ new \<and> (\<forall>s\<in>set new. no_S s)"
proof (cases "path_exists env d")
  case False
  with assms show ?thesis by (simp add: batch_convert_missing)
next
  case True
  show ?thesis
  proof (cases "find_image_files env d r = []")
    case e: True
    with assms True have "stdout w' = stdout w @ [''No supported image files found.'']"
      by (auto simp: batch_convert_empty print_def)
    moreover have "\<forall>s\<in>set [''No supported image files found.'']. no_S s"
      by (simp add: no_S_def)
    ultimately show ?thesis by blast
  next
    case ne: False
    let ?found = "''Found '' @ str_nat (length (find_image_files env d r))
                    @ '' image(s) to convert...''"
    let ?w2 = "print (replicate 60 (CHR ''='')) (print ?found w)"
    obtain t c2 w3 where ca:
      "convert_all env q l m fo (find_image_files env d r) 0 c ?w2 = (t, c2, w3)"
      by (cases "convert_all env q l m fo (find_image_files env d r) 0 c ?w2") blast
    with assms batch_convert_nonempty [OF True ne, of q l m fo c w] have w': "w' = w3" by simp
    from convert_all_lines [OF ca] obtain n2 where
      n2: "stdout w3 = stdout ?w2 @ n2" "\<forall>s\<in>set n2. no_S s" by auto
    have "stdout w' = stdout w @ ([?found, replicate 60 (CHR ''='')] @ n2)"
      using w' n2(1) by (simp add: print_def)
    moreover have "\<forall>s\<in>set ([?found, replicate 60 (CHR ''='')] @ n2). no_S s"
      using n2(2) by (simp add: no_S_def eval_nat_numeral)
    ultimately show ?thesis by blast
  qed
qed

lemma batch_convert_no_skip:
  assumes "batch_convert env d q l m r fo c w = (res, c', w')"
  shows "\<exists>new. stdout w' = stdout w @ new \<and> skip_line name \<notin> set new"
proof -
  from batch_convert_lines [OF assms] obtain new where
    "stdout w' = stdout w @ new" "\<forall>s\<in>set new. no_S s" by auto
  with skip_line_S [of name] show ?thesis by blast
qed

lemma example_old_webp_suffix: "lower (path_suffix [''photos'', ''old.webp'']) = ''.webp''"
  by code_simp

lemma example_old_webp_is_file: "is_file example_env [''photos'', ''old.webp'']"
  by code_simp

lemma example_old_webp_name: "path_name [''photos'', ''old.webp''] = ''old.webp''"
  by code_simp

lemma example_old_webp_not_found:
  "[''photos'', ''old.webp''] \<notin> set (find_image_files example_env [''photos''] False)"
  by code_simp

text \<open>
  Claim C2, as amended. The loop of \<^verbatim>\<open>batch_convert\<close> skips a file whose extension is
  \<^verbatim>\<open>.webp\<close> with a notice and does not pass it to the pipeline. But the discoverer never
  returns such a file, since \<^verbatim>\<open>.webp\<close> is not among the supported extensions: on the
  discovered files the loop passes every file to the pipeline, and a batch run prints no
  skip notice, for any directory and any file name.
\<close>

theorem webp_never_reaches_the_loop:
  "(lower (path_suffix f) = ''.webp'' \<longrightarrow>
      batch_loop env q l m fo (f # rest) t c w
        = batch_loop env q l m fo rest t c (print (skip_line (path_name f)) w))
   \<and> (\<forall>g\<in>set (find_image_files env d r). lower (path_suffix g) \<noteq> ''.webp'')
   \<and> batch_loop env q l m fo (find_image_files env d r) t c w
       = convert_all env q l m fo (find_image_files env d r) t c w
   \<and> (\<exists>res c' w' new. batch_convert env d q l m r fo c w = (res, c', w')
         \<and> stdout w' = stdout w @ new \<and> skip_line name \<notin> set new)"
proof (intro conjI impI ballI)
  assume "lower (path_suffix f) = ''.webp''"
  then show "batch_loop env q l m fo (f # rest) t c w
        = batch_loop env q l m fo rest t c (print (skip_line (path_name f)) w)"
    by simp
next
  fix g assume "g \<in> set (find_image_files env d r)"
  then show "lower (path_suffix g) \<noteq> ''.webp''" by (rule discovered_not_webp)
next
  have "\<forall>g\<in>set (find_image_files env d r). lower (path_suffix g) \<noteq> ''.webp''"
    using discovered_not_webp by blast
  then show "batch_loop env q l m fo (find_image_files env d r) t c w
       = convert_all env q l m fo (find_image_files env d r) t c w"
    by (rule batch_loop_convert_all)
next
  obtain res c' w' where b: "batch_convert env d q l m r fo c w = (res, c', w')"
    by (cases "batch_convert env d q l m r fo c w") blast
  from batch_convert_no_skip [OF b, of name] b
  show "\<exists>res c' w' new. batch_convert env d q l m r fo c w = (res, c', w')
         \<and> stdout w' = stdout w @ new \<and> skip_line name \<notin> set new"
    by blast
qed

theorem webp_never_reaches_the_loop_witness:
  "lower (path_suffix [''photos'', ''old.webp'']) = ''.webp''
   \<and> batch_loop example_env 80 False 4 None [[''photos'', ''old.webp'']] 0 init empty_world
       = (0, init, print (skip_line ''old.webp'') empty_world)
   \<and> [''photos'', ''a.png''] \<in> set (find_image_files example_env [''photos''] False)
   \<and> lower (path_suffix [''photos'', ''a.png'']) \<noteq> ''.webp''
   \<and> batch_loop example_env 80 False 4 None
         (find_image_files example_env [''photos''] False) 0 init empty_world
       = convert_all example_env 80 False 4 None
           (find_image_files example_env [''photos''] False) 0 init empty_world
   \<and> (\<exists>res c' w'. batch_convert example_env [''photos''] 80 False 4 False None init
                       empty_world = (res, c', w')
         \<and> skip_line ''old.webp'' \<notin> set (stdout w'))"
proof -
  note th = webp_never_reaches_the_loop
              [of "[''photos'', ''old.webp'']" example_env 80 False 4 None "[]" 0 init
                  empty_world "[''photos'']" False "''old.webp''"]
  have a: "[''photos'', ''a.png''] \<in> set (find_image_files example_env [''photos''] False)"
    by (simp add: example_photos_files)
  from th example_old_webp_suffix
  have "batch_loop example_env 80 False 4 None [[''photos'', ''old.webp'']] 0 init empty_world
       = batch_loop example_env 80 False 4 None [] 0 init
           (print (skip_line (path_name [''photos'', ''old.webp''])) empty_world)"
    by blast
  then have l: "batch_loop example_env 80 False 4 None [[''photos'', ''old.webp'']] 0 init
                  empty_world = (0, init, print (skip_line ''old.webp'') empty_world)"
    by (simp only: example_old_webp_name batch_loop.simps)
  from th a have n: "lower (path_suffix [''photos'', ''a.png'']) \<noteq> ''.webp''" by blast
  from th have e: "batch_loop example_env 80 False 4 None
         (find_image_files example_env [''photos''] False) 0 init empty_world
       = convert_all example_env 80 False 4 None
           (find_image_files example_env [''photos''] False) 0 init empty_world"
    by blast
  from th obtain res c' w' new where
    "batch_convert example_env [''photos''] 80 False 4 False None init empty_world
       = (res, c', w')"
    "stdout w' = stdout empty_world @ new" "skip_line ''old.webp'' \<notin> set new"
    by blast
  then have s: "\<exists>res c' w'. batch_convert example_env [''photos''] 80 False 4 False None init
                       empty_world = (res, c', w')
         \<and> skip_line ''old.webp'' \<notin> set (stdout w')"
    by (simp add: empty_world_def)
  from example_old_webp_suffix l a n e s show ?thesis by blast
qed

text \<open>
  Claim C2 as stated says that some batch run prints the skip notice for a \<^verbatim>\<open>.webp\<close> file
  of its directory. The example directory holds the regular file \<^verbatim>\<open>old.webp\<close>: it is not
  discovered, and the run prints no notice for it.
\<close>

theorem webp_file_gets_no_notice:
  "is_file example_env [''photos'', ''old.webp'']
   \<and> [''photos'', ''old.webp''] \<notin> set (find_image_files example_env [''photos''] False)
   \<and> skip_line ''old.webp''
        \<notin> set (stdout (snd (snd (batch_convert example_env [''photos''] 80 False 4 False None
                                     init empty_world))))"
proof -
  obtain res c' w' where b:
    "batch_convert example_env [''photos''] 80 False 4 False None init empty_world
       = (res, c', w')"
    by (cases "batch_convert example_env [''photos''] 80 False 4 False None init empty_world")
      blast
  from batch_convert_no_skip [OF b, of "''old.webp''"]
  have "skip_line ''old.webp'' \<notin> set (stdout w')" by (auto simp: empty_world_def)
  with b example_old_webp_is_file example_old_webp_not_found show ?thesis by simp
qed

section \<open>Properties of the colour normalisation\<close>

lemma convert_to_webp_encode_calls:
  assumes "convert_to_webp env ip op q l m fo c w = (r, c', w')"
  shows "encode_calls w' = encode_calls w @
     (case resolve_output env ip op fo of
        Inl e \<Rightarrow> []
      | Inr out \<Rightarrow>
          (case image_open env ip of
             Inl e \<Rightarrow> []
           | Inr img0 \<Rightarrow>
               (case normalize_color env img0 of
                  Inl e \<Rightarrow> []
                | Inr img \<Rightarrow> [(img, out, make_save_kwargs q l m)])))"
  using assms
  by (auto simp: convert_to_webp_def convert_body_def Let_def time_now_def print_def
      split: sum.splits option.splits prod.splits if_splits
      dest!: print_conversion_result_world)

lemma normalize_color_mode:
  "normalize_color env img = Inr img' \<Longrightarrow> mode img' = ''RGB'' \<or> mode img' = ''L''"
  by (auto simp: normalize_color_def Let_def split: if_splits option.splits)

text \<open>
  Claim C6, as amended. When the normalisation step returns an image, its mode is
  \<^verbatim>\<open>RGB\<close> or \<^verbatim>\<open>L\<close> and carries no alpha channel, and only such an image is handed to the
  encoder. An image of mode \<^verbatim>\<open>RGBA\<close> or \<^verbatim>\<open>LA\<close> is pasted over an opaque white
  \<^verbatim>\<open>RGB\<close> background; an image of any other mode than \<^verbatim>\<open>RGB\<close> and \<^verbatim>\<open>L\<close>, the
  remaining alpha modes \<^verbatim>\<open>PA\<close>, \<^verbatim>\<open>RGBa\<close> and \<^verbatim>\<open>La\<close> among them, is converted with
  \<^verbatim>\<open>img.convert('RGB')\<close>; an \<^verbatim>\<open>RGB\<close> or \<^verbatim>\<open>L\<close> image is kept. The step returns no
  image only when the paste or the conversion raises.
\<close>

theorem normalize_color_cases:
  "(normalize_color env img = Inr img' \<longrightarrow>
      (mode img' = ''RGB'' \<or> mode img' = ''L'') \<and> \<not> has_alpha_channel (mode img'))
   \<and> (mode img \<in> {''RGBA'', ''LA''} \<longrightarrow>
        normalize_color env img =
          (case paste env \<lparr>mode = ''RGB'', img_size = img_size img, pixels = White\<rparr> img of
             Some e \<Rightarrow> Inl e
           | None \<Rightarrow> Inr \<lparr>mode = ''RGB'', img_size = img_size img,
                           pixels = Pasted White (pixels img)\<rparr>))
   \<and> (mode img \<notin> {''RGBA'', ''LA'', ''RGB'', ''L''} \<longrightarrow>
        normalize_color env img =
          (case convert env img ''RGB'' of
             Some e \<Rightarrow> Inl e
           | None \<Rightarrow> Inr \<lparr>mode = ''RGB'', img_size = img_size img,
                           pixels = Converted ''RGB'' (pixels img)\<rparr>))
   \<and> (mode img \<in> {''RGB'', ''L''} \<longrightarrow> normalize_color env img = Inr img)
   \<and> (convert_to_webp env ip op q l m fo c w = (r, c', w') \<longrightarrow>
        (\<exists>new. encode_calls w' = encode_calls w @ new
           \<and> (\<forall>(i, out, kw)\<in>set new.
                 (mode i = ''RGB'' \<or> mode i = ''L'') \<and> \<not> has_alpha_channel (mode i))))"
proof (intro conjI impI)
  assume "normalize_color env img = Inr img'"
  from normalize_color_mode [OF this]
  show "mode img' = ''RGB'' \<or> mode img' = ''L''" .
next
  assume "normalize_color env img = Inr img'"
  from normalize_color_mode [OF this]
  show "\<not> has_alpha_channel (mode img')"
    by (auto simp: has_alpha_channel_def)
next
  assume "mode img \<in> {''RGBA'', ''LA''}"
  then show "normalize_color env img =
          (case paste env \<lparr>mode = ''RGB'', img_size = img_size img, pixels = White\<rparr> img of
             Some e \<Rightarrow> Inl e
           | None \<Rightarrow> Inr \<lparr>mode = ''RGB'', img_size = img_size img,
                           pixels = Pasted White (pixels img)\<rparr>)"
    by (auto simp: normalize_color_def Let_def split: option.splits)
next
  assume "mode img \<notin> {''RGBA'', ''LA'', ''RGB'', ''L''}"
  then show "normalize_color env img =
          (case convert env img ''RGB'' of
             Some e \<Rightarrow> Inl e
           | None \<Rightarrow> Inr \<lparr>mode = ''RGB'', img_size = img_size img,
                           pixels = Converted ''RGB'' (pixels img)\<rparr>)"
    by (auto simp: normalize_color_def Let_def split: option.splits)
next
  assume "mode img \<in> {''RGB'', ''L''}"
  then show "normalize_color env img = Inr img"
    by (auto simp: normalize_color_def)
next
  assume a: "convert_to_webp env ip op q l m fo c w = (r, c', w')"
  let ?new = "case resolve_output env ip op fo of
        Inl e \<Rightarrow> []
      | Inr out \<Rightarrow>
          (case image_open env ip of
             Inl e \<Rightarrow> []
           | Inr img0 \<Rightarrow>
               (case normalize_color env img0 of
                  Inl e \<Rightarrow> []
                | Inr img \<Rightarrow> [(img, out, make_save_kwargs q l m)]))"
  have "\<forall>(i, out, kw)\<in>set ?new.
          (mode i = ''RGB'' \<or> mode i = ''L'') \<and> \<not> has_alpha_channel (mode i)"
    by (auto simp: has_alpha_channel_def split: sum.splits dest!: normalize_color_mode [OF sym])
  with convert_to_webp_encode_calls [OF a]
  show "\<exists>new. encode_calls w' = encode_calls w @ new
           \<and> (\<forall>(i, out, kw)\<in>set new.
                 (mode i = ''RGB'' \<or> mode i = ''L'') \<and> \<not> has_alpha_channel (mode i))"
    by blast
qed

theorem normalize_color_cases_witness:
  "normalize_color example_env
       \<lparr>mode = ''RGBA'', img_size = (4, 3), pixels = Decoded [''photos'', ''a.png'']\<rparr>
     = Inr \<lparr>mode = ''RGB'', img_size = (4, 3),
            pixels = Pasted White (Decoded [''photos'', ''a.png''])\<rparr>
   \<and> \<not> has_alpha_channel ''RGB''
   \<and> normalize_color example_env
       \<lparr>mode = ''P'', img_size = (4, 3), pixels = Decoded [''photos'', ''c.gif'']\<rparr>
     = Inr \<lparr>mode = ''RGB'', img_size = (4, 3),
            pixels = Converted ''RGB'' (Decoded [''photos'', ''c.gif''])\<rparr>
   \<and> normalize_color example_env
       \<lparr>mode = ''L'', img_size = (4, 3), pixels = Decoded [''photos'', ''b.JPG'']\<rparr>
     = Inr \<lparr>mode = ''L'', img_size = (4, 3), pixels = Decoded [''photos'', ''b.JPG'']\<rparr>
   \<and> (\<exists>r c' w'. convert_to_webp example_env [''photos'', ''a.png''] None 80 False 4 None
                      init empty_world = (r, c', w')
         \<and> (\<forall>(i, out, kw)\<in>set (encode_calls w'). mode i = ''RGB'' \<or> mode i = ''L''))"
proof -
  let ?A = "\<lparr>mode = ''RGBA'', img_size = (4, 3), pixels = Decoded [''photos'', ''a.png'']\<rparr>"
  let ?A' = "\<lparr>mode = ''RGB'', img_size = (4, 3),
              pixels = Pasted White (Decoded [''photos'', ''a.png''])\<rparr>"
  let ?P = "\<lparr>mode = ''P'', img_size = (4, 3), pixels = Decoded [''photos'', ''c.gif'']\<rparr>"
  let ?G = "\<lparr>mode = ''L'', img_size = (4, 3), pixels = Decoded [''photos'', ''b.JPG'']\<rparr>"
  obtain r c' w' where cw:
    "convert_to_webp example_env [''photos'', ''a.png''] None 80 False 4 None init empty_world
       = (r, c', w')"
    by (cases "convert_to_webp example_env [''photos'', ''a.png''] None 80 False 4 None init
                 empty_world") blast
  note tA = normalize_color_cases
              [of example_env ?A ?A' "[''photos'', ''a.png'']" None 80 False 4 None init
                  empty_world r c' w']
  note tP = normalize_color_cases [of example_env ?P]
  note tG = normalize_color_cases [of example_env ?G]
  have pa: "paste example_env \<lparr>mode = ''RGB'', img_size = img_size ?A, pixels = White\<rparr> ?A
              = None"
    by (simp add: example_env_def)
  have co: "convert example_env ?P ''RGB'' = None" by (simp add: example_env_def)
  from tA pa have a: "normalize_color example_env ?A = Inr ?A'" by simp
  with tA have na: "\<not> has_alpha_channel ''RGB''" by simp
  from tP co have p: "normalize_color example_env ?P
     = Inr \<lparr>mode = ''RGB'', img_size = (4, 3),
            pixels = Converted ''RGB'' (Decoded [''photos'', ''c.gif''])\<rparr>"
    by simp
  from tG have g: "normalize_color example_env ?G = Inr ?G" by simp
  from tA cw obtain new where
    "encode_calls w' = encode_calls empty_world @ new"
    "\<forall>(i, out, kw)\<in>set new. (mode i = ''RGB'' \<or> mode i = ''L'')
        \<and> \<not> has_alpha_channel (mode i)"
    by blast
  then have "\<forall>(i, out, kw)\<in>set (encode_calls w'). mode i = ''RGB'' \<or> mode i = ''L''"
    by (auto simp: empty_world_def)
  with cw a na p g show ?thesis by blast
qed

text \<open>
  Claim C6 as stated composites every image that carries an alpha channel. The test of
  line 90 names \<^verbatim>\<open>RGBA\<close> and \<^verbatim>\<open>LA\<close> only: a palette image with alpha is converted, not
  pasted over white.
\<close>

theorem palette_alpha_is_not_composited:
  "has_alpha_channel ''PA''
   \<and> normalize_color example_env
         \<lparr>mode = ''PA'', img_size = (4, 3), pixels = Decoded [''scan.tif'']\<rparr>
       = Inr \<lparr>mode = ''RGB'', img_size = (4, 3),
              pixels = Converted ''RGB'' (Decoded [''scan.tif''])\<rparr>"
  by (simp add: has_alpha_channel_def normalize_color_def example_env_def)

section \<open>Properties of \<^verbatim>\<open>main\<close>\<close>

subsection \<open>What reaches the encoder\<close>

lemma parse_args_range:
  "parse_args cl = Inr a \<Longrightarrow>
     1 \<le> arg_quality a \<and> arg_quality a \<le> 100 \<and> 0 \<le> arg_method a \<and> arg_method a \<le> 6"
  by (auto simp: parse_args_def split: option.splits if_splits sum.splits)

lemma parse_args_rejects:
  "cl_quality cl = Some q \<Longrightarrow> q < 1 \<or> 100 < q \<Longrightarrow> parse_args cl = Inl 2"
  "cl_method cl = Some m \<Longrightarrow> m < 0 \<or> 6 < m \<Longrightarrow> parse_args cl = Inl 2"
  by (auto simp: parse_args_def split: option.splits if_splits sum.splits)

lemma print_keeps [simp]:
  "encode_calls (print s w) = encode_calls w" "clock_reads (print s w) = clock_reads w"
  "stdout (print s w) = stdout w @ [s]"
  by (simp_all add: print_def)

lemma print_verbose_keeps [simp]: "encode_calls (print_verbose a w) = encode_calls w"
  by (simp add: print_verbose_def Let_def split: option.splits)

lemma print_summary_keeps [simp]: "encode_calls (print_summary n t c w) = encode_calls w"
  by (simp add: print_summary_def Let_def)

lemma convert_to_webp_kwargs:
  assumes "convert_to_webp env ip op q l m fo c w = (r, c', w')"
  shows "\<exists>new. encode_calls w' = encode_calls w @ new
           \<and> (\<forall>(i, out, kw)\<in>set new. kw = make_save_kwargs q l m)"
proof -
  let ?new = "case resolve_output env ip op fo of
        Inl e \<Rightarrow> []
      | Inr out \<Rightarrow>
          (case image_open env ip of
             Inl e \<Rightarrow> []
           | Inr img0 \<Rightarrow>
               (case normalize_color env img0 of
                  Inl e \<Rightarrow> []
                | Inr img \<Rightarrow> [(img, out, make_save_kwargs q l m)]))"
  have "\<forall>(i, out, kw)\<in>set ?new. kw = make_save_kwargs q l m"
    by (auto split: sum.splits)
  with convert_to_webp_encode_calls [OF assms] show ?thesis by blast
qed

lemma convert_all_kwargs:
  "convert_all env q l m fo files t c w = (t', c', w') \<Longrightarrow>
     \<exists>new. encode_calls w' = encode_calls w @ new
        \<and> (\<forall>(i, out, kw)\<in>set new. kw = make_save_kwargs q l m)"
proof (induction files arbitrary: t c w)
  case Nil
  then show ?case by simp
next
  case (Cons f files)
  obtain res tt c1 w1 where s: "convert_to_webp env f None q l m fo c w = ((res, tt), c1, w1)"
    by (cases "convert_to_webp env f None q l m fo c w") auto
  from convert_to_webp_kwargs [OF s] obtain n1 where
    n1: "encode_calls w1 = encode_calls w @ n1"
        "\<forall>(i, out, kw)\<in>set n1. kw = make_save_kwargs q l m" by auto
  from Cons.prems s have "convert_all env q l m fo files (t + tt) c1 w1 = (t', c', w')"
    by simp
  from Cons.IH [OF this] obtain n2 where
    n2: "encode_calls w' = encode_calls w1 @ n2"
        "\<forall>(i, out, kw)\<in>set n2. kw = make_save_kwargs q l m" by auto
  from n1 n2 have "encode_calls w' = encode_calls w @ (n1 @ n2)"
    "\<forall>(i, out, kw)\<in>set (n1 @ n2). kw = make_save_kwargs q l m"
    by auto
  then show ?case by blast
qed

lemma batch_convert_kwargs:
  assumes "batch_convert env d q l m r fo c w = (res, c', w')"
  shows "\<exists>new. encode_calls w' = encode_calls w @ new
           \<and> (\<forall>(i, out, kw)\<in>set new. kw = make_save_kwargs q l m)"
proof (cases "path_exists env d")
  case False
  with assms show ?thesis by (simp add: batch_convert_missing)
next
  case True
  show ?thesis
  proof (cases "find_image_files env d r = []")
    case e: True
    with assms True show ?thesis by (auto simp: batch_convert_empty)
  next
    case ne: False
    let ?w2 = "print (replicate 60 (CHR ''=''))
                 (print (''Found '' @ str_nat (length (find_image_files env d r))
                           @ '' image(s) to convert...'') w)"
    obtain t c2 w3 where ca:
      "convert_all env q l m fo (find_image_files env d r) 0 c ?w2 = (t, c2, w3)"
      by (cases "convert_all env q l m fo (find_image_files env d r) 0 c ?w2") blast
    with assms batch_convert_nonempty [OF True ne, of q l m fo c w] have w': "w' = w3" by simp
    from convert_all_kwargs [OF ca] w' show ?thesis by simp
  qed
qed

lemma main_encode_calls:
  assumes "main env cl w = (code, co, w')"
  shows "\<exists>new. encode_calls w' = encode_calls w @ new
           \<and> (\<forall>(i, out, kw)\<in>set new.
                 1 \<le> kw_quality kw \<and> kw_quality kw \<le> 100
                 \<and> 0 \<le> kw_method kw \<and> kw_method kw \<le> 6)"
proof (cases "parse_args cl")
  case (Inl status)
  with assms show ?thesis by (auto simp: main_def Let_def)
next
  case (Inr a)
  from parse_args_range [OF Inr] have rng:
    "\<forall>(i, out, kw)\<in>set new. kw = make_save_kwargs (arg_quality a) (arg_lossless a) (arg_method a)
       \<Longrightarrow> \<forall>(i, out, kw)\<in>set new. 1 \<le> kw_quality kw \<and> kw_quality kw \<le> 100
                 \<and> 0 \<le> kw_method kw \<and> kw_method kw \<le> 6" for new :: "(image \<times> path \<times> save_kwargs) list"
    by (auto simp: make_save_kwargs_def)
  have triv: "\<exists>new. encode_calls w = encode_calls w @ new
           \<and> (\<forall>(i, out, kw)\<in>set new.
                 1 \<le> kw_quality kw \<and> kw_quality kw \<le> 100
                 \<and> 0 \<le> kw_method kw \<and> kw_method kw \<le> 6)"
    by simp
  let ?w3 = "if arg_verbose a
             then print_verbose a (print (replicate 50 (CHR ''=''))
                    (print ''WebP Image Converter - Python Version'' w))
             else print (replicate 50 (CHR ''=''))
                    (print ''WebP Image Converter - Python Version'' w)"
  have w3: "encode_calls ?w3 = encode_calls w" by simp
  show ?thesis
  proof (cases "path_exists env (arg_input a)")
    case False
    with assms Inr triv show ?thesis by (auto simp: main_def Let_def)
  next
    case ex: True
    show ?thesis
    proof (cases "is_file env (arg_input a)")
      case f: True
      show ?thesis
      proof (cases "is_valid_image env (arg_input a)")
        case False
        with assms Inr ex f triv show ?thesis by (auto simp: main_def Let_def)
      next
        case v: True
        obtain res tt c1 w4 where s:
          "convert_to_webp env (arg_input a) (arg_output a) (arg_quality a) (arg_lossless a)
             (arg_method a) (arg_output_folder a) init ?w3 = ((res, tt), c1, w4)"
          by (cases "convert_to_webp env (arg_input a) (arg_output a) (arg_quality a)
             (arg_lossless a) (arg_method a) (arg_output_folder a) init ?w3") auto
        from convert_to_webp_kwargs [OF s] w3 obtain new where
          new: "encode_calls w4 = encode_calls w @ new"
          "\<forall>(i, out, kw)\<in>set new.
             kw = make_save_kwargs (arg_quality a) (arg_lossless a) (arg_method a)"
          by auto
        from assms Inr ex f v s have "encode_calls w' = encode_calls w4"
          by (auto simp: main_def Let_def split: if_splits)
        with new rng [OF new(2)] show ?thesis by auto
      qed
    next
      case nf: False
      show ?thesis
      proof (cases "is_dir env (arg_input a)")
        case False
        with assms Inr ex nf triv show ?thesis by (auto simp: main_def Let_def)
      next
        case d: True
        let ?w4 = "if arg_output a \<noteq> None
                   then print '''' (print
                          ''Warning: Output path is ignored when processing directories'' ?w3)
                   else ?w3"
        have w4: "encode_calls ?w4 = encode_calls w" by simp
        obtain res c1 w5 where s:
          "batch_convert env (arg_input a) (arg_quality a) (arg_lossless a) (arg_method a)
             (arg_recursive a) (arg_output_folder a) init ?w4 = (res, c1, w5)"
          by (cases "batch_convert env (arg_input a) (arg_quality a) (arg_lossless a)
             (arg_method a) (arg_recursive a) (arg_output_folder a) init ?w4") auto
        from batch_convert_kwargs [OF s] w4 obtain new where
          new: "encode_calls w5 = encode_calls w @ new"
          "\<forall>(i, out, kw)\<in>set new.
             kw = make_save_kwargs (arg_quality a) (arg_lossless a) (arg_method a)"
          by auto
        from assms Inr ex nf d s have "encode_calls w' = encode_calls w5"
          by (auto simp: main_def Let_def split: if_splits sum.splits prod.splits)
        with new rng [OF new(2)] show ?thesis by auto
      qed
    qed
  qed
qed

lemma example_a_open:
  "image_open example_env [''photos'', ''a.png'']
     = Inr \<lparr>mode = ''RGBA'', img_size = (4, 3), pixels = Decoded [''photos'', ''a.png'']\<rparr>"
  by code_simp

lemma example_a_normalize:
  "normalize_color example_env
      \<lparr>mode = ''RGBA'', img_size = (4, 3), pixels = Decoded [''photos'', ''a.png'']\<rparr>
     = Inr \<lparr>mode = ''RGB'', img_size = (4, 3),
            pixels = Pasted White (Decoded [''photos'', ''a.png''])\<rparr>"
  by (simp add: normalize_color_def example_env_def)

lemma example_a_encode_calls:
  "encode_calls (snd (snd (convert_to_webp example_env [''photos'', ''a.png''] None q l m None
                             init empty_world)))
     = [(\<lparr>mode = ''RGB'', img_size = (4, 3),
           pixels = Pasted White (Decoded [''photos'', ''a.png''])\<rparr>,
         [''photos'', ''a.webp''], make_save_kwargs q l m)]"
proof -
  obtain r c' w' where s:
    "convert_to_webp example_env [''photos'', ''a.png''] None q l m None init empty_world
       = (r, c', w')"
    by (cases "convert_to_webp example_env [''photos'', ''a.png''] None q l m None init
                 empty_world") blast
  from convert_to_webp_encode_calls [OF s] s show ?thesis
    by (simp add: example_a_output example_a_open example_a_normalize empty_world_def)
qed

text \<open>
  Claim C1, as amended. Nothing clamps the quality and the method: \<^verbatim>\<open>convert_to_webp\<close>
  hands both to the encoder as it received them. The argument parser accepts a quality
  from 1 to 100 and a method from 0 to 6 only; with a value outside these choices the
  process ends with status 2 before anything is encoded. So every call of the encoder
  made by a run of \<^verbatim>\<open>main\<close> has its quality in 1 to 100 and its method in 0 to 6.
\<close>

theorem quality_and_method_are_checked_not_clamped:
  "(convert_to_webp env ip op q l m fo c w = (r, c1, w1) \<longrightarrow>
      (\<exists>new. encode_calls w1 = encode_calls w @ new
         \<and> (\<forall>(i, out, kw)\<in>set new. kw_quality kw = q \<and> kw_method kw = m)))
   \<and> (cl_quality cl = Some q' \<and> (q' < 1 \<or> 100 < q') \<longrightarrow>
        fst (main env cl w) = 2 \<and> encode_calls (snd (snd (main env cl w))) = encode_calls w)
   \<and> (cl_method cl = Some m' \<and> (m' < 0 \<or> 6 < m') \<longrightarrow>
        fst (main env cl w) = 2 \<and> encode_calls (snd (snd (main env cl w))) = encode_calls w)
   \<and> (main env cl w = (code, co, w2) \<longrightarrow>
        (\<exists>new. encode_calls w2 = encode_calls w @ new
           \<and> (\<forall>(i, out, kw)\<in>set new.
                 1 \<le> kw_quality kw \<and> kw_quality kw \<le> 100
                 \<and> 0 \<le> kw_method kw \<and> kw_method kw \<le> 6)))"
proof (intro conjI impI)
  assume a: "convert_to_webp env ip op q l m fo c w = (r, c1, w1)"
  from convert_to_webp_kwargs [OF a] obtain new where
    "encode_calls w1 = encode_calls w @ new"
    "\<forall>(i, out, kw)\<in>set new. kw = make_save_kwargs q l m"
    by auto
  then have "encode_calls w1 = encode_calls w @ new
         \<and> (\<forall>(i, out, kw)\<in>set new. kw_quality kw = q \<and> kw_method kw = m)"
    by (auto simp: make_save_kwargs_def)
  then show "\<exists>new. encode_calls w1 = encode_calls w @ new
         \<and> (\<forall>(i, out, kw)\<in>set new. kw_quality kw = q \<and> kw_method kw = m)"
    by blast
next
  assume "cl_quality cl = Some q' \<and> (q' < 1 \<or> 100 < q')"
  then have p: "parse_args cl = Inl 2" using parse_args_rejects(1) by blast
  then show "fst (main env cl w) = 2" by (simp add: main_def Let_def)
  from p show "encode_calls (snd (snd (main env cl w))) = encode_calls w"
    by (simp add: main_def Let_def)
next
  assume "cl_method cl = Some m' \<and> (m' < 0 \<or> 6 < m')"
  then have p: "parse_args cl = Inl 2" using parse_args_rejects(2) by blast
  then show "fst (main env cl w) = 2" by (simp add: main_def Let_def)
  from p show "encode_calls (snd (snd (main env cl w))) = encode_calls w"
    by (simp add: main_def Let_def)
next
  assume "main env cl w = (code, co, w2)"
  then show "\<exists>new. encode_calls w2 = encode_calls w @ new
           \<and> (\<forall>(i, out, kw)\<in>set new.
                 1 \<le> kw_quality kw \<and> kw_quality kw \<le> 100
                 \<and> 0 \<le> kw_method kw \<and> kw_method kw \<le> 6)"
    by (rule main_encode_calls)
qed

theorem quality_and_method_are_checked_not_clamped_witness:
  "(\<exists>r c1 w1. convert_to_webp example_env [''photos'', ''a.png''] None 80 False 4 None
                  init empty_world = (r, c1, w1)
      \<and> map (\<lambda>(i, out, kw). (kw_quality kw, kw_method kw)) (encode_calls w1) = [(80, 4)])
   \<and> fst (main example_env (example_cmdline\<lparr>cl_quality := Some 150\<rparr>) empty_world) = 2
   \<and> fst (main example_env (example_cmdline\<lparr>cl_method := Some 9\<rparr>) empty_world) = 2
   \<and> (\<exists>code co w2. main example_env example_cmdline empty_world = (code, co, w2)
        \<and> (\<forall>(i, out, kw)\<in>set (encode_calls w2).
              1 \<le> kw_quality kw \<and> kw_quality kw \<le> 100
              \<and> 0 \<le> kw_method kw \<and> kw_method kw \<le> 6))"
proof -
  obtain r c1 w1 where s:
    "convert_to_webp example_env [''photos'', ''a.png''] None 80 False 4 None init empty_world
       = (r, c1, w1)"
    by (cases "convert_to_webp example_env [''photos'', ''a.png''] None 80 False 4 None init
                 empty_world") blast
  obtain code co w2 where mn: "main example_env example_cmdline empty_world = (code, co, w2)"
    by (cases "main example_env example_cmdline empty_world") blast
  note t1 = quality_and_method_are_checked_not_clamped
              [of example_env "[''photos'', ''a.png'']" None 80 False 4 None init empty_world
                  r c1 w1 "example_cmdline\<lparr>cl_quality := Some 150\<rparr>" 150]
  note t2 = quality_and_method_are_checked_not_clamped
              [of example_env "[''photos'', ''a.png'']" None 80 False 4 None init empty_world
                  r c1 w1 "example_cmdline\<lparr>cl_method := Some 9\<rparr>" _ 9]
  note t3 = quality_and_method_are_checked_not_clamped
              [of example_env "[''photos'', ''a.png'']" None 80 False 4 None init empty_world
                  r c1 w1 example_cmdline _ _ code co w2]
  from s example_a_encode_calls [of 80 False 4]
  have e: "map (\<lambda>(i, out, kw). (kw_quality kw, kw_method kw)) (encode_calls w1) = [(80, 4)]"
    by (simp add: make_save_kwargs_def)
  from t1 have q: "fst (main example_env (example_cmdline\<lparr>cl_quality := Some 150\<rparr>)
                         empty_world) = 2"
    by simp
  from t2 have m: "fst (main example_env (example_cmdline\<lparr>cl_method := Some 9\<rparr>)
                         empty_world) = 2"
    by simp
  from t3 mn obtain new where
    "encode_calls w2 = encode_calls empty_world @ new"
    "\<forall>(i, out, kw)\<in>set new. 1 \<le> kw_quality kw \<and> kw_quality kw \<le> 100
        \<and> 0 \<le> kw_method kw \<and> kw_method kw \<le> 6"
    by blast
  then have rg: "\<forall>(i, out, kw)\<in>set (encode_calls w2).
              1 \<le> kw_quality kw \<and> kw_quality kw \<le> 100
              \<and> 0 \<le> kw_method kw \<and> kw_method kw \<le> 6"
    by (simp add: empty_world_def)
  have A: "\<exists>r c1 w1. convert_to_webp example_env [''photos'', ''a.png''] None 80 False 4 None
                  init empty_world = (r, c1, w1)
      \<and> map (\<lambda>(i, out, kw). (kw_quality kw, kw_method kw)) (encode_calls w1) = [(80, 4)]"
    by (rule exI [of _ r], rule exI [of _ c1], rule exI [of _ w1]) (use s e in simp)
  have B: "\<exists>code co w2. main example_env example_cmdline empty_world = (code, co, w2)
        \<and> (\<forall>(i, out, kw)\<in>set (encode_calls w2).
              1 \<le> kw_quality kw \<and> kw_quality kw \<le> 100
              \<and> 0 \<le> kw_method kw \<and> kw_method kw \<le> 6)"
    by (rule exI [of _ code], rule exI [of _ co], rule exI [of _ w2]) (use mn rg in simp)
  from A q m B show ?thesis by (intro conjI)
qed

text \<open>
  Claim C1 as stated fails for a request that carries values out of range: called with
  quality 150 and method 9, \<^verbatim>\<open>convert_to_webp\<close> invokes the encoder with quality 150 and
  method 9.
\<close>

theorem quality_150_reaches_the_encoder:
  "map (\<lambda>(i, out, kw). (kw_quality kw, kw_method kw))
     (encode_calls (snd (snd (convert_to_webp example_env [''photos'', ''a.png''] None 150 False
                                9 None init empty_world))))
     = [(150, 9)]"
  by (simp add: example_a_encode_calls make_save_kwargs_def)

subsection \<open>The exit status\<close>













section \<open>Properties of \<^verbatim>\<open>_find_image_files\<close>\<close>

lemma lookup_append:
  "lookup n (xs @ ys) = (case lookup n xs of None \<Rightarrow> None | Some n' \<Rightarrow> lookup n' ys)"
proof (induction xs arbitrary: n)
  case Nil
  show ?case by simp
next
  case (Cons c cs)
  show ?case by (cases n) (auto simp: Cons split: option.splits)
qed

lemma find_Some_member: "find P xs = Some x \<Longrightarrow> x \<in> set xs \<and> P x"
  by (induction xs) (auto split: if_splits)

lemma lookup_Cons_dir:
  "lookup n (c # cs) = Some x \<Longrightarrow>
     \<exists>nm es e. n = Directory nm es \<and> e \<in> set es \<and> node_name e = c \<and> lookup e cs = Some x"
  by (cases n) (auto split: option.splits dest: find_Some_member)

lemma subtree_complete:
  "lookup n rel = Some x \<Longrightarrow> rel \<noteq> [] \<Longrightarrow> p @ rel \<in> set (subtree p n)"
proof (induction rel arbitrary: n p)
  case Nil
  then show ?case by simp
next
  case (Cons c cs)
  from lookup_Cons_dir [OF Cons.prems(1)] obtain nm es e where
    n: "n = Directory nm es" "e \<in> set es" "node_name e = c" "lookup e cs = Some x"
    by blast
  show ?case
  proof (cases "cs = []")
    case True
    with n show ?thesis by auto
  next
    case False
    from Cons.IH [OF n(4) False, of "p @ [c]"] n show ?thesis by auto
  qed
qed

lemma subtree_sound:
  "q \<in> set (subtree p n) \<Longrightarrow> \<exists>rel. q = p @ rel \<and> rel \<noteq> []"
proof (induction p n arbitrary: q rule: subtree.induct)
  case (1 p nm es)
  from "1.prems" obtain e where e: "e \<in> set es"
    "q = p @ [node_name e] \<or> q \<in> set (subtree (p @ [node_name e]) e)"
    by auto
  from e(2) show ?case
  proof
    assume "q = p @ [node_name e]"
    then show ?thesis by blast
  next
    assume "q \<in> set (subtree (p @ [node_name e]) e)"
    from "1.IH" [OF e(1) this] obtain rel where "q = (p @ [node_name e]) @ rel" by blast
    then have "q = p @ (node_name e # rel)" by simp
    then show ?thesis by blast
  qed
qed simp_all

lemma is_file_below:
  assumes "is_file env (d @ rel)" "rel \<noteq> []"
  shows "\<exists>nm es. lookup (fs env) d = Some (Directory nm es)
           \<and> (\<exists>x. lookup (Directory nm es) rel = Some x)"
proof -
  from assms(1) obtain x where x: "lookup (fs env) (d @ rel) = Some x"
    by (auto simp: is_file_def split: option.splits)
  then obtain n where n: "lookup (fs env) d = Some n" "lookup n rel = Some x"
    by (auto simp: lookup_append split: option.splits)
  from assms(2) obtain c cs where "rel = c # cs" by (cases rel) auto
  with n(2) lookup_Cons_dir obtain nm es where "n = Directory nm es" by blast
  with n show ?thesis by blast
qed

lemma glob_star_iff:
  "p \<in> set (glob env d ''*'') \<and> is_file env p
     \<longleftrightarrow> (\<exists>c. p = d @ [c]) \<and> is_file env p"
proof
  assume "p \<in> set (glob env d ''*'') \<and> is_file env p"
  then show "(\<exists>c. p = d @ [c]) \<and> is_file env p"
    by (auto simp: glob_def split: option.splits fsnode.splits)
next
  assume a: "(\<exists>c. p = d @ [c]) \<and> is_file env p"
  then obtain c where c: "p = d @ [c]" by blast
  with a is_file_below [of env d "[c]"] obtain nm es x where
    d: "lookup (fs env) d = Some (Directory nm es)" "lookup (Directory nm es) [c] = Some x"
    by auto
  from lookup_Cons_dir [OF d(2)] obtain e where "e \<in> set es" "node_name e = c" by auto
  with d(1) c have "p \<in> set (glob env d ''*'')" by (auto simp: glob_def)
  with a show "p \<in> set (glob env d ''*'') \<and> is_file env p" by simp
qed

lemma glob_rec_iff:
  "p \<in> set (glob env d ''**/*'') \<and> is_file env p
     \<longleftrightarrow> (\<exists>rel. p = d @ rel \<and> rel \<noteq> []) \<and> is_file env p"
proof
  assume "p \<in> set (glob env d ''**/*'') \<and> is_file env p"
  then show "(\<exists>rel. p = d @ rel \<and> rel \<noteq> []) \<and> is_file env p"
    by (auto simp: glob_def split: option.splits fsnode.splits dest: subtree_sound)
next
  assume a: "(\<exists>rel. p = d @ rel \<and> rel \<noteq> []) \<and> is_file env p"
  then obtain rel where r: "p = d @ rel" "rel \<noteq> []" by blast
  with a is_file_below [of env d rel] obtain nm es x where
    d: "lookup (fs env) d = Some (Directory nm es)" "lookup (Directory nm es) rel = Some x"
    by auto
  from subtree_complete [OF d(2) r(2), of d] d(1) r(1)
  have "p \<in> set (glob env d ''**/*'')" by (simp add: glob_def)
  with a show "p \<in> set (glob env d ''**/*'') \<and> is_file env p" by simp
qed


lemma find_image_files_set:
  "p \<in> set (find_image_files env d r) \<longleftrightarrow>
     (\<exists>rel. p = d @ rel \<and> rel \<noteq> [] \<and> (\<not> r \<longrightarrow> length rel = 1))
     \<and> is_file env p \<and> lower (path_suffix p) \<in> SUPPORTED_EXTENSIONS"
proof (cases r)
  case True
  have "p \<in> set (find_image_files env d True) \<longleftrightarrow>
          (p \<in> set (glob env d ''**/*'') \<and> is_file env p)
          \<and> lower (path_suffix p) \<in> SUPPORTED_EXTENSIONS"
    by (auto simp: find_image_files_def)
  with True show ?thesis by (simp only: glob_rec_iff) auto
next
  case False
  have one: "(\<exists>rel. p = d @ rel \<and> rel \<noteq> [] \<and> length rel = 1) \<longleftrightarrow> (\<exists>c. p = d @ [c])"
  proof
    assume "\<exists>rel. p = d @ rel \<and> rel \<noteq> [] \<and> length rel = 1"
    then obtain rel where r: "p = d @ rel" "length rel = 1" by blast
    then obtain c where "rel = [c]" by (cases rel) auto
    with r show "\<exists>c. p = d @ [c]" by blast
  next
    assume "\<exists>c. p = d @ [c]"
    then obtain c where "p = d @ [c]" by blast
    then have "p = d @ [c] \<and> [c] \<noteq> [] \<and> length [c] = 1" by simp
    then show "\<exists>rel. p = d @ rel \<and> rel \<noteq> [] \<and> length rel = 1" by blast
  qed
  have "p \<in> set (find_image_files env d False) \<longleftrightarrow>
          (p \<in> set (glob env d ''*'') \<and> is_file env p)
          \<and> lower (path_suffix p) \<in> SUPPORTED_EXTENSIONS"
    by (auto simp: find_image_files_def)
  with False one show ?thesis by (simp only: glob_star_iff) auto
qed

lemma example_photos_files_recursive:
  "find_image_files example_env [''photos''] True
     = [[''photos'', ''a.png''], [''photos'', ''b.JPG''], [''photos'', ''c.gif''],
        [''photos'', ''corrupt.jpeg''], [''photos'', ''sub'', ''d.tif'']]"
  by code_simp

lemma example_nested_not_direct:
  "[''photos'', ''sub'', ''d.tif''] \<notin> set (find_image_files example_env [''photos''] False)"
  by code_simp

lemma example_b_upper: "path_suffix [''photos'', ''b.JPG''] = ''.JPG''"
  by code_simp

text \<open>
  Claim C4. The list returned for a directory \<open>d\<close> is sorted in the order of paths, which
  compares the components one after the other and each component character by character.
  A path is in the list exactly when it lies below \<open>d\<close> (one component below when the
  flag is off, any number when it is on), is a regular file, and has a suffix whose
  lower-case form is one of the seven supported extensions. Directories, other kinds of
  entries and other suffixes are therefore left out. The function returns a list in every
  case, the empty one exactly when no path qualifies.
\<close>

theorem find_image_files_exact:
  "sorted (find_image_files env d r)
   \<and> (p \<in> set (find_image_files env d r) \<longleftrightarrow>
        (\<exists>rel. p = d @ rel \<and> rel \<noteq> [] \<and> (\<not> r \<longrightarrow> length rel = 1))
        \<and> is_file env p \<and> lower (path_suffix p) \<in> SUPPORTED_EXTENSIONS)
   \<and> (find_image_files env d r = [] \<longleftrightarrow>
        \<not> (\<exists>q rel. q = d @ rel \<and> rel \<noteq> [] \<and> (\<not> r \<longrightarrow> length rel = 1)
               \<and> is_file env q \<and> lower (path_suffix q) \<in> SUPPORTED_EXTENSIONS))"
proof (intro conjI)
  show "sorted (find_image_files env d r)"
    by (simp add: find_image_files_def Let_def)
next
  show "p \<in> set (find_image_files env d r) \<longleftrightarrow>
        (\<exists>rel. p = d @ rel \<and> rel \<noteq> [] \<and> (\<not> r \<longrightarrow> length rel = 1))
        \<and> is_file env p \<and> lower (path_suffix p) \<in> SUPPORTED_EXTENSIONS"
    by (rule find_image_files_set)
next
  have "find_image_files env d r = [] \<longleftrightarrow> (\<forall>q. q \<notin> set (find_image_files env d r))"
    by (cases "find_image_files env d r") auto
  also have "\<dots> \<longleftrightarrow>
        \<not> (\<exists>q rel. q = d @ rel \<and> rel \<noteq> [] \<and> (\<not> r \<longrightarrow> length rel = 1)
               \<and> is_file env q \<and> lower (path_suffix q) \<in> SUPPORTED_EXTENSIONS)"
    unfolding find_image_files_set by blast
  finally show "find_image_files env d r = [] \<longleftrightarrow>
        \<not> (\<exists>q rel. q = d @ rel \<and> rel \<noteq> [] \<and> (\<not> r \<longrightarrow> length rel = 1)
               \<and> is_file env q \<and> lower (path_suffix q) \<in> SUPPORTED_EXTENSIONS)" .
qed

theorem find_image_files_exact_witness:
  "find_image_files example_env [''photos''] False
     = [[''photos'', ''a.png''], [''photos'', ''b.JPG''], [''photos'', ''c.gif''],
        [''photos'', ''corrupt.jpeg'']]
   \<and> sorted (find_image_files example_env [''photos''] True)
   \<and> [''photos'', ''sub'', ''d.tif''] \<in> set (find_image_files example_env [''photos''] True)
   \<and> is_file example_env [''photos'', ''sub'', ''d.tif'']
   \<and> [''photos'', ''sub'', ''d.tif''] \<notin> set (find_image_files example_env [''photos''] False)
   \<and> is_file example_env [''photos'', ''b.JPG'']
   \<and> path_suffix [''photos'', ''b.JPG''] = ''.JPG''
   \<and> lower (path_suffix [''photos'', ''b.JPG'']) \<in> SUPPORTED_EXTENSIONS
   \<and> find_image_files example_env [''empty''] True = []"
proof -
  note t1 = find_image_files_exact [of example_env "[''photos'']" True
                                      "[''photos'', ''sub'', ''d.tif'']"]
  note t2 = find_image_files_exact [of example_env "[''photos'']" False
                                      "[''photos'', ''b.JPG'']"]
  note t3 = find_image_files_exact [of example_env "[''empty'']" True]
  have m1: "[''photos'', ''sub'', ''d.tif''] \<in> set (find_image_files example_env [''photos''] True)"
    by (simp add: example_photos_files_recursive)
  have m2: "[''photos'', ''b.JPG''] \<in> set (find_image_files example_env [''photos''] False)"
    by (simp add: example_photos_files)
  from t1 have s: "sorted (find_image_files example_env [''photos''] True)" by blast
  from t1 m1 have f1: "is_file example_env [''photos'', ''sub'', ''d.tif'']" by blast
  from t2 m2 have f2: "is_file example_env [''photos'', ''b.JPG'']"
    "lower (path_suffix [''photos'', ''b.JPG'']) \<in> SUPPORTED_EXTENSIONS"
    by blast+
  have "\<not> (\<exists>q rel. q = [''empty''] @ rel \<and> rel \<noteq> [] \<and> (\<not> True \<longrightarrow> length rel = 1)
               \<and> is_file example_env q \<and> lower (path_suffix q) \<in> SUPPORTED_EXTENSIONS)"
  proof
    assume "\<exists>q rel. q = [''empty''] @ rel \<and> rel \<noteq> [] \<and> (\<not> True \<longrightarrow> length rel = 1)
               \<and> is_file example_env q \<and> lower (path_suffix q) \<in> SUPPORTED_EXTENSIONS"
    then obtain rel where r: "rel \<noteq> []" "is_file example_env ([''empty''] @ rel)" by blast
    then obtain c cs where "rel = c # cs" by (cases rel) auto
    with r(2) show False
      by (simp add: is_file_def example_env_def example_fs_def split: option.splits)
  qed
  with t3 have e: "find_image_files example_env [''empty''] True = []" by blast
  from example_photos_files s m1 f1 example_nested_not_direct f2(1) example_b_upper f2(2) e
  show ?thesis by (intro conjI)
qed

end
